theory Spec2Isabelle
  imports Main "HOL-Library.Sublist"
begin

section \<open>Strings, \<open>str.lower\<close> and \<open>str.strip\<close>\<close>

text \<open>
  A Python string is represented by the list of its UTF-8 bytes. Equal strings have equal
  byte lists, the empty string is the empty list, and the literals of the source
  (\<open>"none"\<close>, \<open>"medicine_name"\<close>, the field names) are ASCII and stand for themselves.

  \<open>str.lower\<close> and \<open>str.strip\<close> are methods of the Python library, defined through the
  Unicode character tables. They are not part of the program, so the model takes them as a
  parameter \<open>py\<close>. The merger depends on two facts about them, which \<open>python_str\<close> states
  and which Python's methods have: \<open>"".lower().strip()\<close> is \<open>""\<close>, and
  \<open>"none".lower().strip()\<close> is \<open>"none"\<close>. Every theorem below holds for every pair of
  functions with this property.
\<close>

record str_methods =
  lower :: "string \<Rightarrow> string"
  strip :: "string \<Rightarrow> string"

definition python_str :: "str_methods \<Rightarrow> bool" where
  "python_str py =
     (strip py (lower py '''') = '''' \<and> strip py (lower py ''none'') = ''none'')"

section \<open>Dictionaries and the object store\<close>

text \<open>
  A medicine entry is a Python \<open>dict\<close> from field names to strings (the values the
  extraction schema prescribes). The merger appends the very dict objects of its two input
  lists to its result and assigns into them, so the dicts live in a store and the lists
  hold addresses. In the loops the lists are values: the merger iterates over its two
  argument lists and only ever appends to the list it created. Lists and records as
  objects of their own follow further down, where the question is which objects the
  method assigns to.
\<close>

type_synonym addr = nat
type_synonym pydict = "string \<rightharpoonup> string"

record heap =
  cells :: "addr \<Rightarrow> pydict"
  next_addr :: addr

definition alloc :: "pydict \<Rightarrow> heap \<Rightarrow> addr \<times> heap" where
  "alloc d h = (next_addr h, h\<lparr>cells := (cells h)(next_addr h := d), next_addr := Suc (next_addr h)\<rparr>)"

text \<open>\<open>d.get(k, dflt)\<close>; \<open>d.get(k)\<close> without a default is the lookup \<open>d k\<close> itself.\<close>

definition dict_get :: "pydict \<Rightarrow> string \<Rightarrow> string \<Rightarrow> string" where
  "dict_get d k dflt = (case d k of None \<Rightarrow> dflt | Some v \<Rightarrow> v)"

text \<open>\<open>asdict(Medicine())\<close>: the four fields at their default \<open>"none"\<close>.\<close>

definition Medicine_asdict :: pydict where
  "Medicine_asdict =
     [''medicine_name'' \<mapsto> ''none'', ''description'' \<mapsto> ''none'',
      ''qty'' \<mapsto> ''none'', ''side_effects'' \<mapsto> ''none'']"

section \<open>\<open>_merge_medicines\<close>\<close>

text \<open>
  The \<open>enumerate\<close> loop with \<open>break\<close>: the index of the first entry of
  \<open>merged_medicines\<close> whose lower-cased, stripped name equals \<open>med_name\<close>.
\<close>

fun find_existing_index :: "str_methods \<Rightarrow> heap \<Rightarrow> addr list \<Rightarrow> string \<Rightarrow> nat \<Rightarrow> nat option" where
  "find_existing_index py h [] med_name i = None"
| "find_existing_index py h (existing_med # rest) med_name i =
     (if strip py (lower py (dict_get (cells h existing_med) ''medicine_name'' '''')) = med_name
      then Some i
      else find_existing_index py h rest med_name (Suc i))"

text \<open>
  \<open>for key, value in new_med.items(): if value != "none" and value: target[key] = value\<close>,
  as the dict that \<open>target\<close> has become when the loop ends.
\<close>

definition update_items :: "pydict \<Rightarrow> pydict \<Rightarrow> pydict" where
  "update_items target new_med =
     (\<lambda>key. case new_med key of
        None \<Rightarrow> target key
      | Some v \<Rightarrow> if v \<noteq> ''none'' \<and> v \<noteq> '''' then Some v else target key)"

text \<open>The body of the loop over \<open>new_medicines\<close>.\<close>

definition merge_new_med :: "str_methods \<Rightarrow> heap \<Rightarrow> addr list \<Rightarrow> addr \<Rightarrow> heap \<times> addr list" where
  "merge_new_med py h merged_medicines new_med =
     (let med_name = strip py (lower py (dict_get (cells h new_med) ''medicine_name'' ''''))
      in if med_name \<noteq> '''' \<and> med_name \<noteq> ''none'' then
           (case find_existing_index py h merged_medicines med_name 0 of
              Some existing_index \<Rightarrow>
                (let target = merged_medicines ! existing_index
                 in (h\<lparr>cells := (cells h)(target := update_items (cells h target) (cells h new_med))\<rparr>,
                     merged_medicines))
            | None \<Rightarrow> (h, merged_medicines @ [new_med]))
         else (h, merged_medicines))"

fun merge_new_medicines :: "str_methods \<Rightarrow> heap \<Rightarrow> addr list \<Rightarrow> addr list \<Rightarrow> heap \<times> addr list" where
  "merge_new_medicines py h merged_medicines [] = (h, merged_medicines)"
| "merge_new_medicines py h merged_medicines (new_med # rest) =
     (case merge_new_med py h merged_medicines new_med of
        (h', merged_medicines') \<Rightarrow> merge_new_medicines py h' merged_medicines' rest)"

text \<open>
  The whole function. The first loop keeps the existing entries whose \<open>medicine_name\<close> is
  not exactly \<open>"none"\<close> (an absent key is kept: \<open>None != "none"\<close>). The set
  \<open>existing_names\<close> is computed and never read, so it is left out.
\<close>

definition merge_medicines :: "str_methods \<Rightarrow> heap \<Rightarrow> addr list \<Rightarrow> addr list \<Rightarrow> heap \<times> addr list" where
  "merge_medicines py h new_medicines existing_medicines =
     (case merge_new_medicines py h
             (filter (\<lambda>med. cells h med ''medicine_name'' \<noteq> Some ''none'') existing_medicines)
             new_medicines of
        (h', merged_medicines) \<Rightarrow>
          if merged_medicines \<noteq> [] then (h', merged_medicines)
          else (case alloc Medicine_asdict h' of (a, h'') \<Rightarrow> (h'', [a])))"

section \<open>\<open>PrescriptionData\<close> and \<open>_merge_prescription_data\<close>\<close>

text \<open>
  The dataclass. Its last attribute refers to a list; the type \<open>'m\<close> of that attribute
  is \<open>addr list\<close> where a record is handled as a value together with the content of its
  list, and \<open>addr\<close> where records and lists are objects in a store (further down).
\<close>

record 'm PrescriptionData =
  pharmacy_or_doctor_name :: string
  title_or_doctor_details :: string
  contact_details :: string
  date :: string
  address :: string
  rx_number :: string
  store_number :: string
  medicines_names :: 'm

text \<open>
  The dataclass constructor with its \<open>__post_init__\<close>: every scalar defaults to
  \<open>"none"\<close>, and a \<open>medicines_names\<close> of \<open>None\<close> becomes the empty list.
\<close>

definition PrescriptionData_init :: "addr list option \<Rightarrow> addr list PrescriptionData" where
  "PrescriptionData_init ms =
     \<lparr>pharmacy_or_doctor_name = ''none'', title_or_doctor_details = ''none'',
      contact_details = ''none'', date = ''none'', address = ''none'',
      rx_number = ''none'', store_number = ''none'',
      medicines_names = (case ms of None \<Rightarrow> [] | Some l \<Rightarrow> l)\<rparr>"

definition getattr :: "'m PrescriptionData \<Rightarrow> string \<Rightarrow> string \<Rightarrow> string" where
  "getattr p field dflt =
     (if field = ''pharmacy_or_doctor_name'' then pharmacy_or_doctor_name p
      else if field = ''title_or_doctor_details'' then title_or_doctor_details p
      else if field = ''contact_details'' then contact_details p
      else if field = ''date'' then date p
      else if field = ''address'' then address p
      else if field = ''rx_number'' then rx_number p
      else if field = ''store_number'' then store_number p
      else dflt)"

text \<open>\<open>setattr\<close> is only ever called with one of the seven scalar field names.\<close>

definition setattr :: "'m PrescriptionData \<Rightarrow> string \<Rightarrow> string \<Rightarrow> 'm PrescriptionData" where
  "setattr p field v =
     (if field = ''pharmacy_or_doctor_name'' then p\<lparr>pharmacy_or_doctor_name := v\<rparr>
      else if field = ''title_or_doctor_details'' then p\<lparr>title_or_doctor_details := v\<rparr>
      else if field = ''contact_details'' then p\<lparr>contact_details := v\<rparr>
      else if field = ''date'' then p\<lparr>date := v\<rparr>
      else if field = ''address'' then p\<lparr>address := v\<rparr>
      else if field = ''rx_number'' then p\<lparr>rx_number := v\<rparr>
      else if field = ''store_number'' then p\<lparr>store_number := v\<rparr>
      else p)"

text \<open>
  The incoming \<open>new_data\<close> is a dict parsed from the model's answer: string values under
  the scalar keys and a list of medicine dicts under \<open>medicines_names\<close>. Any key may be
  absent.
\<close>

record 'm new_data =
  scalars :: "string \<rightharpoonup> string"
  medicines_key :: "'m option"

text \<open>\<open>new_data.get('medicines_names', [])\<close>.\<close>

definition medicines_get :: "addr list new_data \<Rightarrow> addr list" where
  "medicines_get nd = (case medicines_key nd of None \<Rightarrow> [] | Some l \<Rightarrow> l)"

definition scalar_fields :: "string list" where
  "scalar_fields =
     [''pharmacy_or_doctor_name'', ''title_or_doctor_details'', ''contact_details'',
      ''date'', ''address'', ''rx_number'', ''store_number'']"

text \<open>The body of the loop over the seven field names.\<close>

definition merge_field :: "'a new_data \<Rightarrow> 'b PrescriptionData \<Rightarrow> string \<Rightarrow> 'c PrescriptionData \<Rightarrow> 'c PrescriptionData" where
  "merge_field nd existing_data field merged =
     (let new_value = dict_get (scalars nd) field ''none'';
          existing_value = getattr existing_data field ''none''
      in if new_value \<noteq> ''none'' then setattr merged field new_value
         else if existing_value \<noteq> ''none'' then setattr merged field existing_value
         else setattr merged field ''none'')"

definition merge_prescription_data :: "str_methods \<Rightarrow> heap \<Rightarrow> addr list new_data \<Rightarrow> addr list PrescriptionData \<Rightarrow> heap \<times> addr list PrescriptionData" where
  "merge_prescription_data py h nd existing_data =
     (let merged = fold (merge_field nd existing_data) scalar_fields (PrescriptionData_init None)
      in case merge_medicines py h (medicines_get nd) (medicines_names existing_data) of
           (h', ms) \<Rightarrow> (h', merged\<lparr>medicines_names := ms\<rparr>))"

text \<open>
  \<open>asdict\<close> of a record: its scalar fields in declaration order, and the medicine
  dicts copied out of the store. Two records are equal as Python values exactly when their
  \<open>asdict\<close> images are.
\<close>

definition asdict :: "heap \<Rightarrow> addr list PrescriptionData \<Rightarrow> (string \<times> string) list \<times> pydict list" where
  "asdict h p =
     (map (\<lambda>field. (field, getattr p field ''none'')) scalar_fields,
      map (cells h) (medicines_names p))"

text \<open>
  \<open>_get_default_response\<close>: the all-\<open>"none"\<close> answer used when the model's text does
  not parse, one placeholder medicine in its list.
\<close>

definition get_default_response :: "heap \<Rightarrow> heap \<times> addr list new_data" where
  "get_default_response h =
     (case alloc Medicine_asdict h of
        (a, h') \<Rightarrow>
          (h', \<lparr>scalars = (\<lambda>k. if k \<in> set scalar_fields then Some ''none'' else None),
                medicines_key = Some [a]\<rparr>))"

section \<open>The extractor's accumulated state\<close>

text \<open>
  Of the extractor object only \<open>existing_data\<close> matters here; the client, model name
  and temperature play no part in merging.
\<close>

record extractor =
  existing_data :: "addr list PrescriptionData"

definition extractor_init :: extractor where
  "extractor_init = \<lparr>existing_data = PrescriptionData_init None\<rparr>"

definition reset_data :: "extractor \<Rightarrow> extractor" where
  "reset_data self = self\<lparr>existing_data := PrescriptionData_init None\<rparr>"

definition get_current_data :: "heap \<Rightarrow> extractor \<Rightarrow> (string \<times> string) list \<times> pydict list" where
  "get_current_data h self = asdict h (existing_data self)"

section \<open>The method on the objects it is given\<close>

text \<open>
  \<open>_merge_prescription_data\<close> receives a parsed dict and a dataclass instance and returns
  a dataclass instance; each of them refers to a list object, which refers to the medicine
  dicts. To say which of these objects the method assigns to, they are placed in a store:
  the medicine dicts as before, the lists, the dataclass instances and the parsed dicts,
  each kind with its own addresses. Allocation takes the next unused address of its kind.

  \<open>_merge_medicines\<close> only iterates over its two argument lists, and the list it builds
  is its own until it returns it; so on objects it reads the contents of the two lists,
  runs the loops above, and the list it returns becomes a new list object.
\<close>

record store =
  dict_heap :: heap
  list_cells :: "addr \<Rightarrow> addr list"
  next_list :: addr
  data_cells :: "addr \<Rightarrow> addr PrescriptionData"
  next_data :: addr
  new_cells :: "addr \<Rightarrow> addr new_data"

definition alloc_list :: "addr list \<Rightarrow> store \<Rightarrow> addr \<times> store" where
  "alloc_list xs s =
     (next_list s, s\<lparr>list_cells := (list_cells s)(next_list s := xs), next_list := Suc (next_list s)\<rparr>)"

definition alloc_data :: "addr PrescriptionData \<Rightarrow> store \<Rightarrow> addr \<times> store" where
  "alloc_data d s =
     (next_data s, s\<lparr>data_cells := (data_cells s)(next_data s := d), next_data := Suc (next_data s)\<rparr>)"

text \<open>
  \<open>PrescriptionData()\<close>: \<open>__post_init__\<close> finds \<open>medicines_names\<close> to be \<open>None\<close> and
  assigns a new empty list.
\<close>

definition PrescriptionData_new :: "store \<Rightarrow> addr \<times> store" where
  "PrescriptionData_new s =
     (case alloc_list [] s of
        (l, s') \<Rightarrow>
          alloc_data
            \<lparr>pharmacy_or_doctor_name = ''none'', title_or_doctor_details = ''none'',
             contact_details = ''none'', date = ''none'', address = ''none'',
             rx_number = ''none'', store_number = ''none'', medicines_names = l\<rparr> s')"

text \<open>
  One round of the loop over the field names: \<open>new_data.get\<close> and \<open>getattr\<close> read the two
  arguments, \<open>setattr\<close> assigns to the object \<open>merged\<close>.
\<close>

definition merge_field_obj :: "addr \<Rightarrow> addr \<Rightarrow> addr \<Rightarrow> string \<Rightarrow> store \<Rightarrow> store" where
  "merge_field_obj nd ex merged field s =
     s\<lparr>data_cells := (data_cells s)
         (merged := merge_field (new_cells s nd) (data_cells s ex) field (data_cells s merged))\<rparr>"

definition merge_medicines_obj :: "str_methods \<Rightarrow> store \<Rightarrow> addr \<Rightarrow> addr \<Rightarrow> store \<times> addr" where
  "merge_medicines_obj py s new_medicines existing_medicines =
     (case merge_medicines py (dict_heap s)
             (list_cells s new_medicines) (list_cells s existing_medicines) of
        (h', merged_medicines) \<Rightarrow>
          (case alloc_list merged_medicines (s\<lparr>dict_heap := h'\<rparr>) of (l, s') \<Rightarrow> (s', l)))"

text \<open>
  The method. The default \<open>[]\<close> of \<open>new_data.get('medicines_names', [])\<close> is a list
  object of its own, created whether or not the key is present.
\<close>

definition merge_prescription_data_obj :: "str_methods \<Rightarrow> store \<Rightarrow> addr \<Rightarrow> addr \<Rightarrow> store \<times> addr" where
  "merge_prescription_data_obj py s nd ex =
     (case PrescriptionData_new s of
        (merged, s1) \<Rightarrow>
          (let s2 = fold (merge_field_obj nd ex merged) scalar_fields s1
           in case alloc_list [] s2 of
                (dflt, s3) \<Rightarrow>
                  (case merge_medicines_obj py s3
                          (case medicines_key (new_cells s3 nd) of None \<Rightarrow> dflt | Some l \<Rightarrow> l)
                          (medicines_names (data_cells s3 ex)) of
                     (s4, ms) \<Rightarrow>
                       (s4\<lparr>data_cells := (data_cells s4)
                            (merged := (data_cells s4 merged)\<lparr>medicines_names := ms\<rparr>)\<rparr>,
                        merged))))"

text \<open>
  Reading an object as a value: the record with the content of its list, the parsed dict
  with the content of its list.
\<close>

definition read_data :: "store \<Rightarrow> addr \<Rightarrow> addr list PrescriptionData" where
  "read_data s p =
     \<lparr>pharmacy_or_doctor_name = pharmacy_or_doctor_name (data_cells s p),
      title_or_doctor_details = title_or_doctor_details (data_cells s p),
      contact_details = contact_details (data_cells s p),
      date = date (data_cells s p),
      address = address (data_cells s p),
      rx_number = rx_number (data_cells s p),
      store_number = store_number (data_cells s p),
      medicines_names = list_cells s (medicines_names (data_cells s p))\<rparr>"

definition read_new :: "store \<Rightarrow> addr \<Rightarrow> addr list new_data" where
  "read_new s n =
     \<lparr>scalars = scalars (new_cells s n),
      medicines_key = map_option (list_cells s) (medicines_key (new_cells s n))\<rparr>"

section \<open>Vocabulary for the statements\<close>

text \<open>
  The key an entry is matched by, read from the store: its \<open>medicine_name\<close> (the empty
  string when the key is absent), lower-cased and stripped. An incoming entry takes part
  in the merge when its key is neither empty nor \<open>"none"\<close>.
\<close>

definition norm_name :: "str_methods \<Rightarrow> heap \<Rightarrow> addr \<Rightarrow> string" where
  "norm_name py h a = strip py (lower py (dict_get (cells h a) ''medicine_name'' ''''))"

definition mergeable :: "string \<Rightarrow> bool" where
  "mergeable med_name = (med_name \<noteq> '''' \<and> med_name \<noteq> ''none'')"

text \<open>
  The entry the scan of the result list stops at: the first one with the given key. When
  the incoming entry at position \<open>j\<close> is looked up, the result list holds the carried-over
  existing entries and those of the first \<open>j\<close> incoming entries that were appended; its
  first entry with a mergeable key is the first such entry among the carried-over entries
  followed by all of the first \<open>j\<close> incoming ones. An entry is \<open>matched\<close> when some
  incoming entry with a mergeable key finds it this way.
\<close>

definition first_match :: "str_methods \<Rightarrow> heap \<Rightarrow> string \<Rightarrow> addr list \<Rightarrow> addr option" where
  "first_match py h med_name ms = List.find (\<lambda>a. norm_name py h a = med_name) ms"

definition matched :: "str_methods \<Rightarrow> heap \<Rightarrow> addr list \<Rightarrow> addr list \<Rightarrow> addr \<Rightarrow> bool" where
  "matched py h carried incoming a =
     list_ex (\<lambda>j. mergeable (norm_name py h (incoming ! j)) \<and>
                  first_match py h (norm_name py h (incoming ! j)) (carried @ take j incoming) = Some a)
       [0..<length incoming]"

text \<open>What the first loop of \<open>_merge_medicines\<close> carries over from the existing list.\<close>

definition kept :: "heap \<Rightarrow> addr list \<Rightarrow> addr list" where
  "kept h existing_medicines =
     filter (\<lambda>med. cells h med ''medicine_name'' \<noteq> Some ''none'') existing_medicines"

text \<open>The dicts a returned list of addresses stands for, in the returned store.\<close>

definition entries :: "heap \<times> addr list \<Rightarrow> pydict list" where
  "entries r = map (cells (fst r)) (snd r)"

text \<open>
  The field rule as the specification words it (section 4.2): the incoming value unless it
  is \<open>"none"\<close>, else the existing value unless it is \<open>"none"\<close>, else \<open>"none"\<close>. It is
  compared below with what the loop over the field names computes.
\<close>

definition reconcile :: "string \<Rightarrow> string \<Rightarrow> string" where
  "reconcile incoming existing =
     (if incoming \<noteq> ''none'' then incoming
      else if existing \<noteq> ''none'' then existing
      else ''none'')"

text \<open>The value of the record that \<open>_merge_prescription_data\<close> returns.\<close>

definition merged_value :: "str_methods \<Rightarrow> heap \<Rightarrow> addr list new_data \<Rightarrow> addr list PrescriptionData \<Rightarrow> (string \<times> string) list \<times> pydict list" where
  "merged_value py h nd ex = (case merge_prescription_data py h nd ex of (h', merged) \<Rightarrow> asdict h' merged)"

subsection \<open>Concrete stores and records\<close>

text \<open>
  The worked scenarios need the two string methods at concrete names. All their names are
  ASCII, and on ASCII strings \<open>str.lower\<close> maps \<open>A..Z\<close> to \<open>a..z\<close> and \<open>str.strip\<close>
  removes leading and trailing characters with code 9 to 13 or 28 to 32; \<open>ascii_str\<close>
  does exactly that (and leaves bytes from 128 on alone, so it stands for Python's methods
  on ASCII strings only).
\<close>

definition ascii_space :: "char \<Rightarrow> bool" where
  "ascii_space c = ((of_char c :: nat) \<in> {9, 10, 11, 12, 13, 28, 29, 30, 31, 32})"

definition ascii_lower_char :: "char \<Rightarrow> char" where
  "ascii_lower_char c =
     (let n = (of_char c :: nat) in if 65 \<le> n \<and> n \<le> 90 then char_of (n + 32) else c)"

definition ascii_str :: str_methods where
  "ascii_str =
     \<lparr>lower = map ascii_lower_char,
      strip = (\<lambda>s. rev (dropWhile ascii_space (rev (dropWhile ascii_space s))))\<rparr>"

text \<open>A store holding the given dicts at the addresses \<open>0, 1, ...\<close>.\<close>

definition heap_of :: "pydict list \<Rightarrow> heap" where
  "heap_of ds = \<lparr>cells = (\<lambda>a. if a < length ds then ds ! a else Map.empty), next_addr = length ds\<rparr>"

text \<open>
  Scenario B of the specification: the pharmacy is known, one medicine is on record, and
  the new image names the same medicine in capitals with a side effect and no quantity.
\<close>

definition amoxicillin_existing :: pydict where
  "amoxicillin_existing =
     [''medicine_name'' \<mapsto> ''Amoxicillin'', ''description'' \<mapsto> ''none'',
      ''qty'' \<mapsto> ''30 tabs'', ''side_effects'' \<mapsto> ''none'']"

definition amoxicillin_incoming :: pydict where
  "amoxicillin_incoming =
     [''medicine_name'' \<mapsto> ''AMOXICILLIN'', ''description'' \<mapsto> ''none'',
      ''qty'' \<mapsto> ''none'', ''side_effects'' \<mapsto> ''drowsiness'']"

definition scenario_B_heap :: heap where
  "scenario_B_heap = heap_of [amoxicillin_existing, amoxicillin_incoming]"

definition scenario_B_existing :: "addr list PrescriptionData" where
  "scenario_B_existing = (PrescriptionData_init (Some [0]))\<lparr>pharmacy_or_doctor_name := ''CVS''\<rparr>"

text \<open>Two more medicines.\<close>

definition lisinopril :: pydict where
  "lisinopril =
     [''medicine_name'' \<mapsto> ''Lisinopril'', ''description'' \<mapsto> ''none'',
      ''qty'' \<mapsto> ''none'', ''side_effects'' \<mapsto> ''none'']"

definition metformin :: pydict where
  "metformin =
     [''medicine_name'' \<mapsto> ''Metformin'', ''description'' \<mapsto> ''none'',
      ''qty'' \<mapsto> ''none'', ''side_effects'' \<mapsto> ''none'']"

text \<open>An existing list, as a saved file may hold it, that names one medicine twice.\<close>

definition aspirin_upper :: pydict where
  "aspirin_upper = [''medicine_name'' \<mapsto> ''Aspirin'']"

definition aspirin_lower :: pydict where
  "aspirin_lower = [''medicine_name'' \<mapsto> ''aspirin'']"

text \<open>
  The default response built in a store that already holds one medicine, the empty dict
  \<open>{}\<close> as a response, and a store with a placeholder among the incoming entries.
\<close>

definition default_response_heap :: heap where
  "default_response_heap = fst (get_default_response (heap_of [amoxicillin_existing]))"

definition default_response :: "addr list new_data" where
  "default_response = snd (get_default_response (heap_of [amoxicillin_existing]))"

definition empty_response :: "addr list new_data" where
  "empty_response = \<lparr>scalars = Map.empty, medicines_key = None\<rparr>"

definition skip_heap :: heap where
  "skip_heap = heap_of [amoxicillin_existing, amoxicillin_incoming, Medicine_asdict]"

text \<open>
  An existing list of two medicines and an incoming list of two, the first of which is the
  second existing medicine in capitals.
\<close>

definition collision_heap :: heap where
  "collision_heap = heap_of [lisinopril, amoxicillin_existing, amoxicillin_incoming, metformin]"

text \<open>
  Stores of objects: the dicts of a heap, the lists, the dataclass instances and the parsed
  dicts at the addresses \<open>0, 1, ...\<close> of their kind. \<open>data_with\<close> is an instance that
  knows the pharmacy only.
\<close>

definition data_with :: "string \<Rightarrow> addr \<Rightarrow> addr PrescriptionData" where
  "data_with pharmacy l =
     \<lparr>pharmacy_or_doctor_name = pharmacy, title_or_doctor_details = ''none'',
      contact_details = ''none'', date = ''none'', address = ''none'',
      rx_number = ''none'', store_number = ''none'', medicines_names = l\<rparr>"

definition store_of :: "heap \<Rightarrow> addr list list \<Rightarrow> addr PrescriptionData list \<Rightarrow> addr new_data list \<Rightarrow> store" where
  "store_of h ls ds ns =
     \<lparr>dict_heap = h,
      list_cells = (\<lambda>a. if a < length ls then ls ! a else []),
      next_list = length ls,
      data_cells = (\<lambda>a. if a < length ds then ds ! a else data_with ''none'' 0),
      next_data = length ds,
      new_cells = (\<lambda>a. if a < length ns then ns ! a
                        else \<lparr>scalars = Map.empty, medicines_key = None\<rparr>)\<rparr>"

text \<open>
  Scenario B as objects: list 0 is the existing list, list 1 the incoming one.
\<close>

definition scenario_B_store :: store where
  "scenario_B_store =
     store_of scenario_B_heap [[0], [1]] [data_with ''CVS'' 0]
       [\<lparr>scalars = [''pharmacy_or_doctor_name'' \<mapsto> ''none''], medicines_key = Some 1\<rparr>]"

text \<open>
  An existing list that names aspirin twice (entries 0 and 1), and an incoming list with
  aspirin once (entry 2).
\<close>

definition duplicate_store :: store where
  "duplicate_store =
     store_of (heap_of [aspirin_upper, aspirin_lower, aspirin_upper]) [[0, 1], [2]]
       [data_with ''none'' 0]
       [\<lparr>scalars = Map.empty, medicines_key = Some 1\<rparr>]"

section \<open>Auxiliary facts\<close>

lemma strip_lower_empty: "python_str py \<Longrightarrow> strip py (lower py '''') = ''''"
  by (simp add: python_str_def)

lemma strip_lower_none: "python_str py \<Longrightarrow> strip py (lower py ''none'') = ''none''"
  by (simp add: python_str_def)

lemma find_existing_index_None:
  "(find_existing_index py h ms k i = None) = (k \<notin> norm_name py h ` set ms)"
  by (induction ms arbitrary: i) (auto simp: norm_name_def)

lemma find_existing_index_Some:
  "find_existing_index py h ms k i = Some j \<Longrightarrow>
     i \<le> j \<and> j - i < length ms \<and> norm_name py h (ms ! (j - i)) = k \<and>
     (\<forall>l < j - i. norm_name py h (ms ! l) \<noteq> k)"
proof (induction ms arbitrary: i)
  case Nil
  then show ?case by simp
next
  case (Cons a ms)
  show ?case
  proof (cases "norm_name py h a = k")
    case True
    with Cons.prems show ?thesis by (simp add: norm_name_def)
  next
    case False
    with Cons.prems have "find_existing_index py h ms k (Suc i) = Some j"
      by (simp add: norm_name_def)
    from Cons.IH[OF this] have ih: "Suc i \<le> j" "j - Suc i < length ms"
      "norm_name py h (ms ! (j - Suc i)) = k" "\<forall>l < j - Suc i. norm_name py h (ms ! l) \<noteq> k"
      by auto
    from ih(1) have eq: "j - i = Suc (j - Suc i)" by arith
    show ?thesis
    proof (intro conjI allI impI)
      show "i \<le> j" using ih(1) by arith
      show "j - i < length (a # ms)" using ih(2) eq by simp
      show "norm_name py h ((a # ms) ! (j - i)) = k" using ih(3) eq by simp
      fix l assume "l < j - i"
      then show "norm_name py h ((a # ms) ! l) \<noteq> k"
        using ih(4) False eq by (cases l) auto
    qed
  qed
qed

lemma find_existing_index_first:
  "i < length ms \<Longrightarrow> norm_name py h (ms ! i) = k \<Longrightarrow> \<forall>l < i. norm_name py h (ms ! l) \<noteq> k \<Longrightarrow>
   find_existing_index py h ms k c = Some (c + i)"
proof (induction ms arbitrary: i c)
  case Nil
  then show ?case by simp
next
  case (Cons a ms)
  show ?case
  proof (cases i)
    case 0
    with Cons.prems show ?thesis by (simp add: norm_name_def)
  next
    case (Suc i')
    with Cons.prems have "norm_name py h a \<noteq> k" by auto
    moreover have "find_existing_index py h ms k (Suc c) = Some (Suc c + i')"
      using Cons.prems Suc by (intro Cons.IH) auto
    ultimately show ?thesis using Suc by (simp add: norm_name_def)
  qed
qed

lemma mergeable_raw_name:
  assumes "python_str py" and "mergeable (strip py (lower py (dict_get d ''medicine_name'' '''')))"
  shows "\<exists>v. d ''medicine_name'' = Some v \<and> v \<noteq> ''none'' \<and> v \<noteq> ''''"
proof (cases "d ''medicine_name''")
  case None
  with assms show ?thesis by (simp add: dict_get_def mergeable_def strip_lower_empty)
next
  case (Some v)
  with assms have "v \<noteq> ''none''" "v \<noteq> ''''"
    using strip_lower_none[OF assms(1)] strip_lower_empty[OF assms(1)]
    by (auto simp: dict_get_def mergeable_def)
  with Some show ?thesis by simp
qed

lemma merge_new_med_cases:
  obtains
    (skip) "\<not> mergeable (norm_name py h n)" "merge_new_med py h ms n = (h, ms)"
  | (append) "mergeable (norm_name py h n)" "norm_name py h n \<notin> norm_name py h ` set ms"
      "merge_new_med py h ms n = (h, ms @ [n])"
  | (update) i where "mergeable (norm_name py h n)" "i < length ms"
      "norm_name py h (ms ! i) = norm_name py h n" "\<forall>l < i. norm_name py h (ms ! l) \<noteq> norm_name py h n"
      "merge_new_med py h ms n =
         (h\<lparr>cells := (cells h)(ms ! i := update_items (cells h (ms ! i)) (cells h n))\<rparr>, ms)"
proof (cases "mergeable (norm_name py h n)")
  case False
  then have "merge_new_med py h ms n = (h, ms)"
    by (auto simp: merge_new_med_def norm_name_def mergeable_def Let_def)
  with False show ?thesis by (rule skip)
next
  case True
  show ?thesis
  proof (cases "find_existing_index py h ms (norm_name py h n) 0")
    case None
    then have "norm_name py h n \<notin> norm_name py h ` set ms"
      by (simp add: find_existing_index_None)
    moreover have "merge_new_med py h ms n = (h, ms @ [n])"
      using True None by (simp add: merge_new_med_def norm_name_def mergeable_def Let_def)
    ultimately show ?thesis using True by (intro append)
  next
    case (Some i)
    from find_existing_index_Some[OF Some]
    have "i < length ms" "norm_name py h (ms ! i) = norm_name py h n"
      "\<forall>l < i. norm_name py h (ms ! l) \<noteq> norm_name py h n" by auto
    moreover have "merge_new_med py h ms n =
         (h\<lparr>cells := (cells h)(ms ! i := update_items (cells h (ms ! i)) (cells h n))\<rparr>, ms)"
      using True Some by (simp add: merge_new_med_def norm_name_def mergeable_def Let_def)
    ultimately show ?thesis using True by (intro update)
  qed
qed

lemma norm_name_update:
  assumes "python_str py" "mergeable (norm_name py h n)" "norm_name py h t = norm_name py h n"
  shows "norm_name py (h\<lparr>cells := (cells h)(t := update_items (cells h t) (cells h n))\<rparr>) a = norm_name py h a"
proof (cases "a = t")
  case False
  then show ?thesis by (simp add: norm_name_def)
next
  case True
  from mergeable_raw_name[OF assms(1), of "cells h n"] assms(2)
  obtain v where v: "cells h n ''medicine_name'' = Some v" "v \<noteq> ''none''" "v \<noteq> ''''"
    by (auto simp: norm_name_def)
  then have "dict_get (update_items (cells h t) (cells h n)) ''medicine_name'' '''' = v"
    by (simp add: update_items_def dict_get_def)
  moreover have "norm_name py h n = strip py (lower py v)"
    using v by (simp add: norm_name_def dict_get_def)
  ultimately show ?thesis using True assms(3) by (simp add: norm_name_def)
qed

lemma norm_name_merge_new_med:
  "python_str py \<Longrightarrow> norm_name py (fst (merge_new_med py h ms n)) a = norm_name py h a"
  by (rule merge_new_med_cases[of py h n ms]) (simp_all add: norm_name_update)

lemma norm_name_merge_new_medicines:
  "python_str py \<Longrightarrow> norm_name py (fst (merge_new_medicines py h ms ns)) a = norm_name py h a"
proof (induction ns arbitrary: h ms)
  case Nil
  then show ?case by simp
next
  case (Cons n ns)
  obtain h1 ms1 where s: "merge_new_med py h ms n = (h1, ms1)" by (cases "merge_new_med py h ms n")
  have "norm_name py h1 a = norm_name py h a"
    using norm_name_merge_new_med[OF Cons.prems, of h ms n a] s by simp
  with Cons.IH[OF Cons.prems, of h1 ms1] s show ?case by simp
qed

lemma next_addr_merge_new_med: "next_addr (fst (merge_new_med py h ms n)) = next_addr h"
  by (rule merge_new_med_cases[of py h n ms]) simp_all

lemma next_addr_merge_new_medicines:
  "next_addr (fst (merge_new_medicines py h ms ns)) = next_addr h"
proof (induction ns arbitrary: h ms)
  case Nil
  then show ?case by simp
next
  case (Cons n ns)
  obtain h1 ms1 where s: "merge_new_med py h ms n = (h1, ms1)" by (cases "merge_new_med py h ms n")
  have "next_addr h1 = next_addr h"
    using next_addr_merge_new_med[of py h ms n] s by simp
  with Cons.IH[of h1 ms1] s show ?case by simp
qed

lemma merge_medicines_kept:
  "merge_medicines py h new ex =
     (case merge_new_medicines py h (kept h ex) new of
        (h', ms) \<Rightarrow> if ms \<noteq> [] then (h', ms)
                     else (case alloc Medicine_asdict h' of (a, h'') \<Rightarrow> (h'', [a])))"
  by (simp add: merge_medicines_def kept_def)

lemma distinct_merge_new_med:
  assumes "python_str py" and "distinct (map (norm_name py h) ms)"
  shows "distinct (map (norm_name py (fst (merge_new_med py h ms n))) (snd (merge_new_med py h ms n)))"
proof -
  have eq: "map (norm_name py (fst (merge_new_med py h ms n))) xs = map (norm_name py h) xs" for xs
    using assms(1) by (simp add: norm_name_merge_new_med)
  show ?thesis unfolding eq
  proof (rule merge_new_med_cases[of py h n ms])
    assume "merge_new_med py h ms n = (h, ms)"
    with assms show "distinct (map (norm_name py h) (snd (merge_new_med py h ms n)))" by simp
  next
    assume "norm_name py h n \<notin> norm_name py h ` set ms" "merge_new_med py h ms n = (h, ms @ [n])"
    with assms show "distinct (map (norm_name py h) (snd (merge_new_med py h ms n)))" by simp
  next
    fix i
    assume "merge_new_med py h ms n =
         (h\<lparr>cells := (cells h)(ms ! i := update_items (cells h (ms ! i)) (cells h n))\<rparr>, ms)"
    with assms show "distinct (map (norm_name py h) (snd (merge_new_med py h ms n)))" by simp
  qed
qed

lemma distinct_merge_new_medicines:
  "python_str py \<Longrightarrow> distinct (map (norm_name py h) ms) \<Longrightarrow>
   distinct (map (norm_name py (fst (merge_new_medicines py h ms ns))) (snd (merge_new_medicines py h ms ns)))"
proof (induction ns arbitrary: h ms)
  case Nil
  then show ?case by simp
next
  case (Cons n ns)
  obtain h1 ms1 where s: "merge_new_med py h ms n = (h1, ms1)" by (cases "merge_new_med py h ms n")
  have "distinct (map (norm_name py h1) ms1)"
    using distinct_merge_new_med[OF Cons.prems, of n] s by simp
  from Cons.IH[OF Cons.prems(1) this] s show ?case by simp
qed

lemma merge_new_medicines_appends:
  "\<exists>app. subseq app ns \<and> snd (merge_new_medicines py h ms ns) = ms @ app"
proof (induction ns arbitrary: h ms)
  case Nil
  then show ?case by simp
next
  case (Cons n ns)
  show ?case
  proof (rule merge_new_med_cases[of py h n ms])
    assume "merge_new_med py h ms n = (h, ms)"
    moreover obtain app where "subseq app ns" "snd (merge_new_medicines py h ms ns) = ms @ app"
      using Cons.IH by blast
    ultimately show ?thesis by (intro exI[of _ app]) (simp add: list_emb_Cons)
  next
    assume a: "merge_new_med py h ms n = (h, ms @ [n])"
    obtain app where "subseq app ns" "snd (merge_new_medicines py h (ms @ [n]) ns) = (ms @ [n]) @ app"
      using Cons.IH by blast
    with a show ?thesis by (intro exI[of _ "n # app"]) simp
  next
    fix i
    assume a: "merge_new_med py h ms n =
         (h\<lparr>cells := (cells h)(ms ! i := update_items (cells h (ms ! i)) (cells h n))\<rparr>, ms)"
    obtain app where "subseq app ns"
      "snd (merge_new_medicines py (h\<lparr>cells := (cells h)(ms ! i := update_items (cells h (ms ! i)) (cells h n))\<rparr>) ms ns) = ms @ app"
      using Cons.IH by blast
    with a show ?thesis by (intro exI[of _ app]) (simp add: list_emb_Cons)
  qed
qed

lemma merge_new_medicines_append:
  "merge_new_medicines py h ms (xs @ ys) =
     (case merge_new_medicines py h ms xs of (h', ms') \<Rightarrow> merge_new_medicines py h' ms' ys)"
  by (induction xs arbitrary: h ms) (auto split: prod.splits)

lemma merge_new_med_skip:
  "\<not> mergeable (norm_name py h e) \<Longrightarrow> merge_new_med py h ms e = (h, ms)"
  by (auto simp: merge_new_med_def norm_name_def mergeable_def Let_def)

lemma Medicine_asdict_name: "Medicine_asdict ''medicine_name'' = Some ''none''"
  by (simp add: Medicine_asdict_def)

lemma norm_name_placeholder:
  "python_str py \<Longrightarrow> cells h s = Medicine_asdict \<Longrightarrow> norm_name py h s = ''none''"
  by (simp add: norm_name_def dict_get_def Medicine_asdict_name strip_lower_none)

lemma merge_field_reconcile:
  "merge_field nd ex field merged =
     setattr merged field (reconcile (dict_get (scalars nd) field ''none'') (getattr ex field ''none''))"
  by (simp add: merge_field_def reconcile_def Let_def)

lemma merged_scalars:
  "fold (merge_field nd ex) scalar_fields (PrescriptionData_init None) =
     \<lparr>pharmacy_or_doctor_name =
        reconcile (dict_get (scalars nd) ''pharmacy_or_doctor_name'' ''none'') (pharmacy_or_doctor_name ex),
      title_or_doctor_details =
        reconcile (dict_get (scalars nd) ''title_or_doctor_details'' ''none'') (title_or_doctor_details ex),
      contact_details =
        reconcile (dict_get (scalars nd) ''contact_details'' ''none'') (contact_details ex),
      date = reconcile (dict_get (scalars nd) ''date'' ''none'') (date ex),
      address = reconcile (dict_get (scalars nd) ''address'' ''none'') (address ex),
      rx_number = reconcile (dict_get (scalars nd) ''rx_number'' ''none'') (rx_number ex),
      store_number = reconcile (dict_get (scalars nd) ''store_number'' ''none'') (store_number ex),
      medicines_names = []\<rparr>"
  by (simp add: scalar_fields_def merge_field_reconcile setattr_def getattr_def PrescriptionData_init_def)

lemma snd_merge_prescription_data:
  "snd (merge_prescription_data py h nd ex) =
     (fold (merge_field nd ex) scalar_fields (PrescriptionData_init None))
       \<lparr>medicines_names :=
          snd (merge_medicines py h (medicines_get nd) (medicines_names ex))\<rparr>"
  by (simp add: merge_prescription_data_def Let_def split: prod.splits)

lemma fst_merge_prescription_data:
  "fst (merge_prescription_data py h nd ex) =
     fst (merge_medicines py h (medicines_get nd) (medicines_names ex))"
  by (simp add: merge_prescription_data_def Let_def split: prod.splits)

lemma merge_new_medicines_all_skipped:
  "\<forall>n \<in> set ns. \<not> mergeable (norm_name py h n) \<Longrightarrow> merge_new_medicines py h ms ns = (h, ms)"
  by (induction ns) (simp_all add: merge_new_med_skip)

lemma reconcile_none: "reconcile ''none'' existing = existing"
  by (simp add: reconcile_def)

lemma asdict_scalars_eq:
  assumes "pharmacy_or_doctor_name p = pharmacy_or_doctor_name q"
    "title_or_doctor_details p = title_or_doctor_details q"
    "contact_details p = contact_details q" "date p = date q" "address p = address q"
    "rx_number p = rx_number q" "store_number p = store_number q"
  shows "fst (asdict h p) = fst (asdict h' q)"
  using assms by (simp add: asdict_def getattr_def scalar_fields_def)

lemma scalar_fields_cases:
  "field \<in> set scalar_fields \<Longrightarrow> field = ''pharmacy_or_doctor_name'' \<or> field = ''title_or_doctor_details''
    \<or> field = ''contact_details'' \<or> field = ''date'' \<or> field = ''address''
    \<or> field = ''rx_number'' \<or> field = ''store_number''"
  by (simp add: scalar_fields_def)

lemma getattr_merged:
  assumes "field \<in> set scalar_fields"
  shows "getattr (snd (merge_prescription_data py h nd ex)) field ''none'' =
         reconcile (dict_get (scalars nd) field ''none'') (getattr ex field ''none'')"
  using scalar_fields_cases[OF assms]
  by (elim disjE) (simp_all add: getattr_def snd_merge_prescription_data merged_scalars)

lemma merge_field_absent:
  "scalars nd field = None \<Longrightarrow>
   merge_field (nd\<lparr>scalars := (scalars nd)(field \<mapsto> ''none'')\<rparr>) ex = merge_field nd ex"
  by (auto simp: merge_field_def dict_get_def fun_eq_iff Let_def)

lemma merge_field_medicines_key:
  "merge_field (nd\<lparr>medicines_key := ms\<rparr>) ex = merge_field nd ex"
  by (simp add: merge_field_def fun_eq_iff)

lemma first_match_heap:
  "(\<And>a. norm_name py h' a = norm_name py h a) \<Longrightarrow> first_match py h' k ms = first_match py h k ms"
  by (simp add: first_match_def)

lemma first_match_append:
  "first_match py h k (xs @ ys) =
     (case first_match py h k xs of None \<Rightarrow> first_match py h k ys | Some a \<Rightarrow> Some a)"
  by (induction xs) (simp_all add: first_match_def)

lemma first_match_update:
  assumes "i < length ms" "norm_name py h (ms ! i) = k" "\<forall>l < i. norm_name py h (ms ! l) \<noteq> k"
  shows "first_match py h k ms = Some (ms ! i)"
  unfolding first_match_def find_Some_iff using assms by blast

lemma first_match_step:
  assumes inv: "\<forall>k. mergeable k \<longrightarrow> first_match py h k ms = first_match py h k full"
    and k: "mergeable k"
  shows "first_match py h k (snd (merge_new_med py h ms n)) = first_match py h k (full @ [n])"
proof -
  have single: "first_match py h k [n] = (if norm_name py h n = k then Some n else None)"
    by (simp add: first_match_def)
  from inv k have eq: "first_match py h k ms = first_match py h k full" by simp
  show ?thesis
  proof (rule merge_new_med_cases[of py h n ms])
    assume "\<not> mergeable (norm_name py h n)" "merge_new_med py h ms n = (h, ms)"
    with k eq show ?thesis
      by (auto simp: first_match_append single split: option.splits)
  next
    assume "merge_new_med py h ms n = (h, ms @ [n])"
    with eq show ?thesis by (simp add: first_match_append)
  next
    fix i
    assume m: "mergeable (norm_name py h n)" and i: "i < length ms"
      "norm_name py h (ms ! i) = norm_name py h n" "\<forall>l < i. norm_name py h (ms ! l) \<noteq> norm_name py h n"
      and s: "merge_new_med py h ms n =
         (h\<lparr>cells := (cells h)(ms ! i := update_items (cells h (ms ! i)) (cells h n))\<rparr>, ms)"
    from first_match_update[OF i] inv m
    have "first_match py h (norm_name py h n) full = Some (ms ! i)" by simp
    then have "first_match py h k (full @ [n]) = first_match py h k full"
      by (cases "norm_name py h n = k") (auto simp: first_match_append single split: option.splits)
    with s eq show ?thesis by simp
  qed
qed

lemma cells_merge_new_med_changed:
  assumes "cells (fst (merge_new_med py h ms n)) a \<noteq> cells h a"
  shows "mergeable (norm_name py h n) \<and> first_match py h (norm_name py h n) ms = Some a"
proof (rule merge_new_med_cases[of py h n ms])
  assume "merge_new_med py h ms n = (h, ms)"
  with assms show ?thesis by simp
next
  assume "merge_new_med py h ms n = (h, ms @ [n])"
  with assms show ?thesis by simp
next
  fix i
  assume m: "mergeable (norm_name py h n)" and i: "i < length ms"
    "norm_name py h (ms ! i) = norm_name py h n" "\<forall>l < i. norm_name py h (ms ! l) \<noteq> norm_name py h n"
    and s: "merge_new_med py h ms n =
         (h\<lparr>cells := (cells h)(ms ! i := update_items (cells h (ms ! i)) (cells h n))\<rparr>, ms)"
  from assms s have "a = ms ! i" by (cases "a = ms ! i") simp_all
  with m first_match_update[OF i] show ?thesis by simp
qed

lemma cells_merge_new_medicines_changed:
  assumes py: "python_str py"
  shows "cells (fst (merge_new_medicines py h ms ns)) a \<noteq> cells h a \<Longrightarrow>
    \<forall>k. mergeable k \<longrightarrow> first_match py h k ms = first_match py h k full \<Longrightarrow>
    \<exists>j < length ns. mergeable (norm_name py h (ns ! j)) \<and>
       first_match py h (norm_name py h (ns ! j)) (full @ take j ns) = Some a"
proof (induction ns arbitrary: h ms full)
  case Nil
  then show ?case by simp
next
  case (Cons n ns)
  obtain h1 ms1 where s: "merge_new_med py h ms n = (h1, ms1)" by (cases "merge_new_med py h ms n")
  have nn: "norm_name py h1 b = norm_name py h b" for b
    using norm_name_merge_new_med[OF py, of h ms n b] s by simp
  have fm: "first_match py h1 k xs = first_match py h k xs" for k xs
    by (rule first_match_heap) (rule nn)
  show ?case
  proof (cases "cells h1 a = cells h a")
    case False
    with s have "cells (fst (merge_new_med py h ms n)) a \<noteq> cells h a" by simp
    from cells_merge_new_med_changed[OF this] Cons.prems(2)
    have "mergeable (norm_name py h n) \<and> first_match py h (norm_name py h n) full = Some a"
      by auto
    then show ?thesis by (intro exI[of _ 0]) simp
  next
    case True
    with Cons.prems(1) s
    have ch: "cells (fst (merge_new_medicines py h1 ms1 ns)) a \<noteq> cells h1 a" by simp
    have inv: "\<forall>k. mergeable k \<longrightarrow> first_match py h1 k ms1 = first_match py h1 k (full @ [n])"
      using first_match_step[OF Cons.prems(2), of _ n] s by (simp add: fm)
    from Cons.IH[OF ch inv] obtain j where j: "j < length ns"
      "mergeable (norm_name py h1 (ns ! j))"
      "first_match py h1 (norm_name py h1 (ns ! j)) ((full @ [n]) @ take j ns) = Some a" by blast
    then show ?thesis unfolding nn fm by (intro exI[of _ "Suc j"]) simp
  qed
qed

lemma matched_iff:
  "matched py h carried incoming a =
     (\<exists>j < length incoming. mergeable (norm_name py h (incoming ! j)) \<and>
        first_match py h (norm_name py h (incoming ! j)) (carried @ take j incoming) = Some a)"
  by (auto simp: matched_def list_ex_iff)

lemma unmatched_cells:
  assumes "python_str py" and "a < next_addr h" and "\<not> matched py h (kept h ex) new a"
  shows "cells (fst (merge_medicines py h new ex)) a = cells h a"
proof -
  obtain h1 ms where s: "merge_new_medicines py h (kept h ex) new = (h1, ms)"
    by (cases "merge_new_medicines py h (kept h ex) new")
  have "cells h1 a = cells h a"
  proof (rule ccontr)
    assume "cells h1 a \<noteq> cells h a"
    with s have "cells (fst (merge_new_medicines py h (kept h ex) new)) a \<noteq> cells h a" by simp
    from cells_merge_new_medicines_changed[OF assms(1) this, of "kept h ex"] assms(3)
    show False by (simp add: matched_iff)
  qed
  moreover have "next_addr h1 = next_addr h"
    using next_addr_merge_new_medicines[of py h "kept h ex" new] s by simp
  ultimately show ?thesis
    using s assms(2) by (simp add: merge_medicines_kept alloc_def)
qed


lemma fold_merge_field_obj:
  "ex \<noteq> merged \<Longrightarrow>
   fold (merge_field_obj nd ex merged) fs s =
     s\<lparr>data_cells := (data_cells s)
        (merged := fold (merge_field (new_cells s nd) (data_cells s ex)) fs (data_cells s merged))\<rparr>"
proof (induction fs arbitrary: s)
  case Nil
  then show ?case by simp
next
  case (Cons f fs)
  let ?s = "merge_field_obj nd ex merged f s"
  have "fold (merge_field_obj nd ex merged) (f # fs) s = fold (merge_field_obj nd ex merged) fs ?s"
    by simp
  also have "\<dots> = ?s\<lparr>data_cells := (data_cells ?s)
        (merged := fold (merge_field (new_cells ?s nd) (data_cells ?s ex)) fs (data_cells ?s merged))\<rparr>"
    by (rule Cons.IH[OF Cons.prems])
  also have "\<dots> = s\<lparr>data_cells := (data_cells s)
        (merged := fold (merge_field (new_cells s nd) (data_cells s ex)) (f # fs) (data_cells s merged))\<rparr>"
    using Cons.prems by (simp add: merge_field_obj_def)
  finally show ?case .
qed

lemma merged_fold:
  "fold (merge_field nd ex) scalar_fields m =
     m\<lparr>pharmacy_or_doctor_name :=
         reconcile (dict_get (scalars nd) ''pharmacy_or_doctor_name'' ''none'') (pharmacy_or_doctor_name ex),
       title_or_doctor_details :=
         reconcile (dict_get (scalars nd) ''title_or_doctor_details'' ''none'') (title_or_doctor_details ex),
       contact_details :=
         reconcile (dict_get (scalars nd) ''contact_details'' ''none'') (contact_details ex),
       date := reconcile (dict_get (scalars nd) ''date'' ''none'') (date ex),
       address := reconcile (dict_get (scalars nd) ''address'' ''none'') (address ex),
       rx_number := reconcile (dict_get (scalars nd) ''rx_number'' ''none'') (rx_number ex),
       store_number := reconcile (dict_get (scalars nd) ''store_number'' ''none'') (store_number ex)\<rparr>"
  by (simp add: scalar_fields_def merge_field_reconcile setattr_def getattr_def)

lemma merge_prescription_data_obj_eq:
  assumes ex: "ex < next_data s"
    and el: "medicines_names (data_cells s ex) < next_list s"
    and nl: "case medicines_key (new_cells s nd) of None \<Rightarrow> True | Some l \<Rightarrow> l < next_list s"
  shows "merge_prescription_data_obj py s nd ex =
    (s\<lparr>dict_heap := fst (merge_medicines py (dict_heap s)
                          (medicines_get (read_new s nd)) (medicines_names (read_data s ex))),
       list_cells := (list_cells s)
         (next_list s := [], Suc (next_list s) := [],
          Suc (Suc (next_list s)) := snd (merge_medicines py (dict_heap s)
                          (medicines_get (read_new s nd)) (medicines_names (read_data s ex)))),
       next_list := Suc (Suc (Suc (next_list s))),
       data_cells := (data_cells s)
         (next_data s :=
            (fold (merge_field (new_cells s nd) (data_cells s ex)) scalar_fields
               \<lparr>pharmacy_or_doctor_name = ''none'', title_or_doctor_details = ''none'',
                contact_details = ''none'', date = ''none'', address = ''none'',
                rx_number = ''none'', store_number = ''none'', medicines_names = next_list s\<rparr>)
            \<lparr>medicines_names := Suc (Suc (next_list s))\<rparr>),
       next_data := Suc (next_data s)\<rparr>,
     next_data s)"
proof -
  let ?init = "\<lparr>pharmacy_or_doctor_name = ''none'', title_or_doctor_details = ''none'',
      contact_details = ''none'', date = ''none'', address = ''none'',
      rx_number = ''none'', store_number = ''none'', medicines_names = next_list s\<rparr>"
  let ?s1 = "s\<lparr>list_cells := (list_cells s)(next_list s := []), next_list := Suc (next_list s),
      data_cells := (data_cells s)(next_data s := ?init), next_data := Suc (next_data s)\<rparr>"
  let ?d = "fold (merge_field (new_cells s nd) (data_cells s ex)) scalar_fields ?init"
  let ?s2 = "?s1\<lparr>data_cells := (data_cells s)(next_data s := ?d)\<rparr>"
  let ?s3 = "?s2\<lparr>list_cells := (list_cells s)(next_list s := [], Suc (next_list s) := []),
      next_list := Suc (Suc (next_list s))\<rparr>"
  from ex have ne: "ex \<noteq> next_data s" by simp
  from el have el1: "medicines_names (data_cells s ex) \<noteq> next_list s"
    and el2: "medicines_names (data_cells s ex) \<noteq> Suc (next_list s)" by simp_all
  have p1: "PrescriptionData_new s = (next_data s, ?s1)"
    by (simp add: PrescriptionData_new_def alloc_list_def alloc_data_def)
  have p2: "fold (merge_field_obj nd ex (next_data s)) scalar_fields ?s1 = ?s2"
    using ne by (simp add: fold_merge_field_obj)
  have p3: "alloc_list [] ?s2 = (Suc (next_list s), ?s3)"
    by (simp add: alloc_list_def)
  have new: "list_cells ?s3
        (case medicines_key (new_cells ?s3 nd) of None \<Rightarrow> Suc (next_list s) | Some l \<Rightarrow> l) =
      medicines_get (read_new s nd)"
    using nl by (cases "medicines_key (new_cells s nd)") (simp_all add: medicines_get_def read_new_def)
  have old: "list_cells ?s3 (medicines_names (data_cells ?s3 ex)) = medicines_names (read_data s ex)"
    using ne el1 el2 by (simp add: read_data_def)
  show ?thesis
    unfolding merge_prescription_data_obj_def p1 prod.case Let_def p2 p3 merge_medicines_obj_def new old
    by (simp add: alloc_list_def split: prod.splits)
qed

text \<open>
  Read back as values, the method on objects computes what \<open>merge_prescription_data\<close>
  computes on the values of its arguments.
\<close>

lemma merge_prescription_data_obj_value:
  assumes "ex < next_data s"
    and "medicines_names (data_cells s ex) < next_list s"
    and "case medicines_key (new_cells s nd) of None \<Rightarrow> True | Some l \<Rightarrow> l < next_list s"
  shows "(dict_heap (fst (merge_prescription_data_obj py s nd ex)),
          read_data (fst (merge_prescription_data_obj py s nd ex))
                    (snd (merge_prescription_data_obj py s nd ex))) =
         merge_prescription_data py (dict_heap s) (read_new s nd) (read_data s ex)"
proof -
  have "dict_heap (fst (merge_prescription_data_obj py s nd ex)) =
        fst (merge_prescription_data py (dict_heap s) (read_new s nd) (read_data s ex))"
    by (simp add: merge_prescription_data_obj_eq[OF assms] fst_merge_prescription_data)
  moreover have "read_data (fst (merge_prescription_data_obj py s nd ex))
                    (snd (merge_prescription_data_obj py s nd ex)) =
        snd (merge_prescription_data py (dict_heap s) (read_new s nd) (read_data s ex))"
    by (simp add: merge_prescription_data_obj_eq[OF assms] snd_merge_prescription_data
        merged_fold PrescriptionData_init_def read_data_def read_new_def)
  ultimately show ?thesis by (simp add: prod_eq_iff)
qed

subsection \<open>Facts about the worked scenarios\<close>

lemma cells_heap_of: "cells (heap_of ds) a = (if a < length ds then ds ! a else Map.empty)"
  by (simp add: heap_of_def)

lemma next_addr_heap_of: "next_addr (heap_of ds) = length ds"
  by (simp add: heap_of_def)

lemma python_str_ascii: "python_str ascii_str"
  by code_simp

lemma strip_lower_examples:
  "strip ascii_str (lower ascii_str ''Amoxicillin'') = ''amoxicillin''"
  "strip ascii_str (lower ascii_str ''AMOXICILLIN'') = ''amoxicillin''"
  "strip ascii_str (lower ascii_str ''Lisinopril'') = ''lisinopril''"
  "strip ascii_str (lower ascii_str ''Metformin'') = ''metformin''"
  "strip ascii_str (lower ascii_str ''Aspirin'') = ''aspirin''"
  "strip ascii_str (lower ascii_str ''aspirin'') = ''aspirin''"
  by code_simp+

lemma norm_name_scenario_B:
  "norm_name ascii_str scenario_B_heap 0 = ''amoxicillin''"
  "norm_name ascii_str scenario_B_heap (Suc 0) = ''amoxicillin''"
  by (simp_all add: norm_name_def scenario_B_heap_def cells_heap_of dict_get_def
      amoxicillin_existing_def amoxicillin_incoming_def strip_lower_examples)

lemma kept_scenario_B: "kept scenario_B_heap [0] = [0]"
  by (simp add: kept_def scenario_B_heap_def cells_heap_of amoxicillin_existing_def)

lemma merge_new_med_append:
  "mergeable (norm_name py h n) \<Longrightarrow> norm_name py h n \<notin> norm_name py h ` set ms \<Longrightarrow>
   merge_new_med py h ms n = (h, ms @ [n])"
  by (simp add: merge_new_med_def norm_name_def[symmetric] mergeable_def[symmetric]
      find_existing_index_None[THEN iffD2])

lemma merge_new_med_update:
  "mergeable (norm_name py h n) \<Longrightarrow> find_existing_index py h ms (norm_name py h n) 0 = Some i \<Longrightarrow>
   merge_new_med py h ms n =
     (h\<lparr>cells := (cells h)(ms ! i := update_items (cells h (ms ! i)) (cells h n))\<rparr>, ms)"
  by (simp add: merge_new_med_def norm_name_def mergeable_def Let_def)

lemma default_response_eval:
  "cells default_response_heap 0 = amoxicillin_existing"
  "cells default_response_heap (Suc 0) = Medicine_asdict"
  "next_addr default_response_heap = 2"
  "medicines_get default_response = [Suc 0]"
  by (simp_all add: default_response_heap_def default_response_def get_default_response_def
      alloc_def heap_of_def medicines_get_def)

lemma default_response_scalars:
  "field \<in> set scalar_fields \<Longrightarrow> scalars default_response field = Some ''none''"
  by (simp add: default_response_def get_default_response_def alloc_def)

lemma merge_scenario_B:
  "merge_medicines ascii_str scenario_B_heap [Suc 0] [0] =
     (scenario_B_heap\<lparr>cells := (cells scenario_B_heap)
         (0 := update_items amoxicillin_existing amoxicillin_incoming)\<rparr>, [0])"
proof -
  have "mergeable (norm_name ascii_str scenario_B_heap (Suc 0))"
    by (simp add: norm_name_scenario_B mergeable_def)
  moreover have "find_existing_index ascii_str scenario_B_heap [0]
      (norm_name ascii_str scenario_B_heap (Suc 0)) 0 = Some 0"
    by (simp add: norm_name_scenario_B norm_name_def[symmetric])
  ultimately have "merge_new_med ascii_str scenario_B_heap [0] (Suc 0) =
     (scenario_B_heap\<lparr>cells := (cells scenario_B_heap)
         (0 := update_items amoxicillin_existing amoxicillin_incoming)\<rparr>, [0])"
    using merge_new_med_update[of ascii_str scenario_B_heap "Suc 0" "[0]" 0]
    by (simp add: scenario_B_heap_def cells_heap_of)
  then show ?thesis by (simp add: merge_medicines_kept kept_scenario_B)
qed

lemma norm_name_collision:
  "norm_name ascii_str collision_heap 0 = ''lisinopril''"
  "norm_name ascii_str collision_heap (Suc 0) = ''amoxicillin''"
  "norm_name ascii_str collision_heap 2 = ''amoxicillin''"
  "norm_name ascii_str collision_heap 3 = ''metformin''"
  by (simp_all add: norm_name_def collision_heap_def cells_heap_of dict_get_def lisinopril_def
      amoxicillin_existing_def amoxicillin_incoming_def metformin_def strip_lower_examples)

lemma kept_collision: "kept collision_heap [0, Suc 0] = [0, Suc 0]"
  by (simp add: kept_def collision_heap_def cells_heap_of lisinopril_def amoxicillin_existing_def)

lemma merge_collision:
  "snd (merge_medicines ascii_str collision_heap [2, 3] [0, Suc 0]) = [0, Suc 0, 3]"
proof -
  have "find_existing_index ascii_str collision_heap [0, Suc 0]
      (norm_name ascii_str collision_heap 2) 0 = Some (Suc 0)"
    by (simp add: norm_name_collision norm_name_def[symmetric])
  then have "snd (merge_new_med ascii_str collision_heap [0, Suc 0] 2) = [0, Suc 0]"
    using merge_new_med_update[of ascii_str collision_heap 2 "[0, Suc 0]" "Suc 0"]
    by (simp add: norm_name_collision mergeable_def)
  then obtain h1 where s1: "merge_new_med ascii_str collision_heap [0, Suc 0] 2 = (h1, [0, Suc 0])"
    by (cases "merge_new_med ascii_str collision_heap [0, Suc 0] 2") simp
  have nn: "norm_name ascii_str h1 a = norm_name ascii_str collision_heap a" for a
    using norm_name_merge_new_med[OF python_str_ascii, of collision_heap "[0, Suc 0]" 2 a] s1
    by simp
  have s2: "merge_new_med ascii_str h1 [0, Suc 0] 3 = (h1, [0, Suc 0, 3])"
    using merge_new_med_append[of ascii_str h1 3 "[0, Suc 0]"]
    by (simp add: nn norm_name_collision mergeable_def)
  show ?thesis
    by (simp add: merge_medicines_kept kept_collision s1 s2)
qed

lemma filter_length_id: "length (filter P xs) = length xs \<Longrightarrow> filter P xs = xs"
proof (induction xs)
  case Nil
  then show ?case by simp
next
  case (Cons a xs)
  show ?case
  proof (cases "P a")
    case True
    with Cons show ?thesis by simp
  next
    case False
    with Cons.prems have "length (filter P xs) = Suc (length xs)" by simp
    moreover have "length (filter P xs) \<le> length xs" by (rule length_filter_le)
    ultimately show ?thesis by simp
  qed
qed

lemma store_of_simps:
  "dict_heap (store_of h ls ds ns) = h"
  "list_cells (store_of h ls ds ns) a = (if a < length ls then ls ! a else [])"
  "next_list (store_of h ls ds ns) = length ls"
  "data_cells (store_of h ls ds ns) a = (if a < length ds then ds ! a else data_with ''none'' 0)"
  "next_data (store_of h ls ds ns) = length ds"
  "new_cells (store_of h ls ds ns) a =
     (if a < length ns then ns ! a else \<lparr>scalars = Map.empty, medicines_key = None\<rparr>)"
  by (simp_all add: store_of_def)

lemma duplicate_store_reads:
  "medicines_names (read_data duplicate_store 0) = [0, Suc 0]"
  "medicines_get (read_new duplicate_store 0) = [2]"
  "dict_heap duplicate_store = heap_of [aspirin_upper, aspirin_lower, aspirin_upper]"
  by (simp_all add: duplicate_store_def store_of_simps read_data_def read_new_def
      medicines_get_def data_with_def)

lemma norm_name_duplicate:
  "norm_name ascii_str (heap_of [aspirin_upper, aspirin_lower, aspirin_upper]) 0 = ''aspirin''"
  "norm_name ascii_str (heap_of [aspirin_upper, aspirin_lower, aspirin_upper]) (Suc 0) = ''aspirin''"
  "norm_name ascii_str (heap_of [aspirin_upper, aspirin_lower, aspirin_upper]) 2 = ''aspirin''"
  by (simp_all add: norm_name_def cells_heap_of dict_get_def aspirin_upper_def aspirin_lower_def
      strip_lower_examples)

lemma scenario_B_store_reads:
  "medicines_names (read_data scenario_B_store 0) = [0]"
  "medicines_get (read_new scenario_B_store 0) = [Suc 0]"
  "dict_heap scenario_B_store = scenario_B_heap"
  by (simp_all add: scenario_B_store_def store_of_simps read_data_def read_new_def
      medicines_get_def data_with_def)

section \<open>The claims\<close>

text \<open>
  Claim C1. For each of the seven scalar fields, the field of the merged record is the
  incoming value (\<open>new_data.get(field, "none")\<close>) when that is not \<open>"none"\<close>, otherwise
  the existing value when that is not \<open>"none"\<close>, otherwise \<open>"none"\<close>; this holds for
  every incoming dict and every existing record.
\<close>

theorem merged_scalar_fields:
  "pharmacy_or_doctor_name (snd (merge_prescription_data py h nd ex)) =
     reconcile (dict_get (scalars nd) ''pharmacy_or_doctor_name'' ''none'') (pharmacy_or_doctor_name ex) \<and>
   title_or_doctor_details (snd (merge_prescription_data py h nd ex)) =
     reconcile (dict_get (scalars nd) ''title_or_doctor_details'' ''none'') (title_or_doctor_details ex) \<and>
   contact_details (snd (merge_prescription_data py h nd ex)) =
     reconcile (dict_get (scalars nd) ''contact_details'' ''none'') (contact_details ex) \<and>
   date (snd (merge_prescription_data py h nd ex)) =
     reconcile (dict_get (scalars nd) ''date'' ''none'') (date ex) \<and>
   address (snd (merge_prescription_data py h nd ex)) =
     reconcile (dict_get (scalars nd) ''address'' ''none'') (address ex) \<and>
   rx_number (snd (merge_prescription_data py h nd ex)) =
     reconcile (dict_get (scalars nd) ''rx_number'' ''none'') (rx_number ex) \<and>
   store_number (snd (merge_prescription_data py h nd ex)) =
     reconcile (dict_get (scalars nd) ''store_number'' ''none'') (store_number ex)"
  by (simp add: snd_merge_prescription_data merged_scalars)

text \<open>
  Claim C2, as amended. Merging an all-sentinel response (every scalar \<open>"none"\<close> or
  absent, every incoming medicine with an empty or \<open>"none"\<close> key) into a record \<open>R\<close>
  returns a record equal to \<open>R\<close> if and only if the medicine list of \<open>R\<close> is non-empty and
  holds no entry named exactly \<open>"none"\<close>, or is the single all-\<open>"none"\<close> placeholder.
\<close>

theorem empty_merge_returns_existing:
  assumes "\<forall>field \<in> set scalar_fields. dict_get (scalars nd) field ''none'' = ''none''"
    and "\<forall>n \<in> set (medicines_get nd). \<not> mergeable (norm_name py h n)"
  shows "merged_value py h nd R = asdict h R \<longleftrightarrow>
         (medicines_names R \<noteq> [] \<and>
            (\<forall>r \<in> set (medicines_names R). cells h r ''medicine_name'' \<noteq> Some ''none'')) \<or>
         map (cells h) (medicines_names R) = [Medicine_asdict]"
proof -
  let ?res = "merge_prescription_data py h nd R"
  let ?ms = "medicines_names R"
  have sc: "fst (asdict (fst ?res) (snd ?res)) = fst (asdict h R)"
  proof (rule asdict_scalars_eq)
    show "pharmacy_or_doctor_name (snd ?res) = pharmacy_or_doctor_name R"
      "title_or_doctor_details (snd ?res) = title_or_doctor_details R"
      "contact_details (snd ?res) = contact_details R" "date (snd ?res) = date R"
      "address (snd ?res) = address R" "rx_number (snd ?res) = rx_number R"
      "store_number (snd ?res) = store_number R"
      using assms(1)[unfolded scalar_fields_def]
      by (simp_all add: snd_merge_prescription_data merged_scalars reconcile_none)
  qed
  have loop: "merge_new_medicines py h (kept h ?ms) (medicines_get nd) = (h, kept h ?ms)"
    using assms(2) by (rule merge_new_medicines_all_skipped)
  have res: "entries (merge_medicines py h (medicines_get nd) ?ms) =
      (if kept h ?ms \<noteq> [] then map (cells h) (kept h ?ms) else [Medicine_asdict])"
    using loop by (simp add: merge_medicines_kept entries_def alloc_def)
  have "snd (asdict (fst ?res) (snd ?res)) = entries (merge_medicines py h (medicines_get nd) ?ms)"
    by (simp add: asdict_def entries_def snd_merge_prescription_data fst_merge_prescription_data)
  with sc res have main: "merged_value py h nd R = asdict h R \<longleftrightarrow>
      (if kept h ?ms \<noteq> [] then map (cells h) (kept h ?ms) else [Medicine_asdict]) =
      map (cells h) ?ms"
    by (simp add: merged_value_def case_prod_beta prod_eq_iff asdict_def)
  have all: "kept h ?ms = ?ms \<longleftrightarrow> (\<forall>r \<in> set ?ms. cells h r ''medicine_name'' \<noteq> Some ''none'')"
    by (simp add: kept_def filter_id_conv)
  show ?thesis
  proof (cases "kept h ?ms = []")
    case True
    have "\<not> (?ms \<noteq> [] \<and> (\<forall>r \<in> set ?ms. cells h r ''medicine_name'' \<noteq> Some ''none''))"
      using True all by auto
    with True main show ?thesis by auto
  next
    case False
    have "map (cells h) (kept h ?ms) = map (cells h) ?ms \<longleftrightarrow> kept h ?ms = ?ms"
    proof
      assume "map (cells h) (kept h ?ms) = map (cells h) ?ms"
      then have "length (kept h ?ms) = length ?ms" by (rule map_eq_imp_length_eq)
      then show "kept h ?ms = ?ms"
        unfolding kept_def by (rule filter_length_id)
    next
      assume "kept h ?ms = ?ms"
      then show "map (cells h) (kept h ?ms) = map (cells h) ?ms" by simp
    qed
    moreover have "map (cells h) ?ms \<noteq> [Medicine_asdict]"
    proof
      assume "map (cells h) ?ms = [Medicine_asdict]"
      then obtain p where "?ms = [p]" "cells h p = Medicine_asdict" by auto
      then have "kept h ?ms = []" by (simp add: kept_def Medicine_asdict_name)
      with False show False by simp
    qed
    moreover have "?ms \<noteq> []" using False by (auto simp: kept_def)
    ultimately show ?thesis using False main all by auto
  qed
qed

text \<open>
  The theorem at the default response: merged into the record of scenario B it returns that
  record; merged into a record whose list holds the medicine and a placeholder it does not.
\<close>

theorem empty_merge_returns_existing_witness:
  "merged_value ascii_str default_response_heap default_response scenario_B_existing =
     asdict default_response_heap scenario_B_existing \<and>
   merged_value ascii_str default_response_heap default_response (PrescriptionData_init (Some [0, 1])) \<noteq>
     asdict default_response_heap (PrescriptionData_init (Some [0, 1]))"
proof -
  have a: "\<forall>field \<in> set scalar_fields. dict_get (scalars default_response) field ''none'' = ''none''"
    by (simp add: default_response_scalars dict_get_def)
  have b: "\<forall>n \<in> set (medicines_get default_response).
      \<not> mergeable (norm_name ascii_str default_response_heap n)"
    by (simp add: default_response_eval norm_name_placeholder[OF python_str_ascii] mergeable_def)
  note th = empty_merge_returns_existing[OF a b]
  have c: "medicines_names scenario_B_existing \<noteq> [] \<and>
      (\<forall>r \<in> set (medicines_names scenario_B_existing).
          cells default_response_heap r ''medicine_name'' \<noteq> Some ''none'')"
    by (simp add: scenario_B_existing_def PrescriptionData_init_def default_response_eval
        amoxicillin_existing_def)
  have d: "\<not> (medicines_names (PrescriptionData_init (Some [0, 1])) \<noteq> [] \<and>
      (\<forall>r \<in> set (medicines_names (PrescriptionData_init (Some [0, 1]))).
          cells default_response_heap r ''medicine_name'' \<noteq> Some ''none''))"
    by (simp add: PrescriptionData_init_def default_response_eval Medicine_asdict_name)
  have e: "map (cells default_response_heap) (medicines_names (PrescriptionData_init (Some [0, 1])))
      \<noteq> [Medicine_asdict]"
    by (simp add: PrescriptionData_init_def)
  from th[of scenario_B_existing] c
  have "merged_value ascii_str default_response_heap default_response scenario_B_existing =
     asdict default_response_heap scenario_B_existing" by blast
  moreover from th[of "PrescriptionData_init (Some [0, 1])"] d e
  have "merged_value ascii_str default_response_heap default_response (PrescriptionData_init (Some [0, 1])) \<noteq>
     asdict default_response_heap (PrescriptionData_init (Some [0, 1]))" by blast
  ultimately show ?thesis by simp
qed

text \<open>
  Claim C2 as stated fails at the freshly constructed record: its medicine list is empty,
  and the merge returns a list holding one placeholder.
\<close>

theorem empty_merge_counterexample:
  "merged_value ascii_str default_response_heap default_response (PrescriptionData_init None) \<noteq>
   asdict default_response_heap (PrescriptionData_init None)"
proof -
  have "merge_new_med ascii_str default_response_heap [] (Suc 0) = (default_response_heap, [])"
    by (rule merge_new_med_skip)
      (simp add: default_response_eval norm_name_placeholder[OF python_str_ascii] mergeable_def)
  then have "length (snd (merged_value ascii_str default_response_heap default_response
      (PrescriptionData_init None))) = 1"
    by (simp add: merged_value_def case_prod_beta asdict_def snd_merge_prescription_data
        default_response_eval merge_medicines_kept kept_def
        PrescriptionData_init_def alloc_def)
  moreover have "length (snd (asdict default_response_heap (PrescriptionData_init None))) = 0"
    by (simp add: asdict_def PrescriptionData_init_def)
  ultimately show ?thesis by auto
qed

text \<open>
  Claim C3, as amended. If the existing entries that are carried over (those not named
  exactly \<open>"none"\<close>) have pairwise different lower-cased, stripped names, then no two
  entries of the merged list share such a name, whatever the incoming list is.
\<close>

theorem merged_medicines_distinct:
  assumes "python_str py"
    and "distinct (map (norm_name py h) (kept h existing_medicines))"
  shows "distinct (map (norm_name py (fst (merge_medicines py h new_medicines existing_medicines)))
                       (snd (merge_medicines py h new_medicines existing_medicines)))"
proof -
  obtain h1 ms where s: "merge_new_medicines py h (kept h existing_medicines) new_medicines = (h1, ms)"
    by (cases "merge_new_medicines py h (kept h existing_medicines) new_medicines")
  have d: "distinct (map (norm_name py h1) ms)"
    using distinct_merge_new_medicines[OF assms, of new_medicines] s by simp
  show ?thesis
  proof (cases "ms = []")
    case True
    with s show ?thesis by (simp add: merge_medicines_kept alloc_def)
  next
    case False
    with s d show ?thesis by (simp add: merge_medicines_kept)
  qed
qed

text \<open>
  The theorem at two existing medicines and two incoming ones, one of which collides with
  an existing medicine: the merged list has three entries with three different names.
\<close>

theorem merged_medicines_distinct_witness:
  "snd (merge_medicines ascii_str collision_heap [2, 3] [0, 1]) = [0, 1, 3] \<and>
   distinct (map (norm_name ascii_str (fst (merge_medicines ascii_str collision_heap [2, 3] [0, 1])))
                 (snd (merge_medicines ascii_str collision_heap [2, 3] [0, 1])))"
proof -
  have "distinct (map (norm_name ascii_str collision_heap) (kept collision_heap [0, 1]))"
    by (simp add: kept_collision norm_name_collision)
  from merged_medicines_distinct[OF python_str_ascii this, of "[2, 3]"] show ?thesis
    by (simp add: merge_collision)
qed

text \<open>
  Claim C3 as stated fails when the existing list already names one medicine twice: with
  nothing incoming, both entries are returned.
\<close>

theorem duplicate_existing_counterexample:
  "\<not> distinct (map (norm_name ascii_str (fst (merge_medicines ascii_str (heap_of [aspirin_upper, aspirin_lower]) [] [0, 1])))
                    (snd (merge_medicines ascii_str (heap_of [aspirin_upper, aspirin_lower]) [] [0, 1])))"
  by (simp add: merge_medicines_def cells_heap_of aspirin_upper_def aspirin_lower_def
      norm_name_def dict_get_def strip_lower_examples)

text \<open>
  Claim C4, as amended. For an existing record and lists that were there before the call:
  the method returns a record object that did not exist before, whose medicine list is a
  list object that did not exist before; every record object, every list object and every
  parsed dict that existed before holds the values it held before; and so does every
  medicine entry that existed before, unless it is the entry that some incoming entry is
  matched with (the first entry with the incoming entry's key when that entry is looked
  up). Matched entries are the only objects the method assigns to besides the ones it
  creates.
\<close>

theorem merge_assigns_only_matched_entries:
  assumes "python_str py"
    and "ex < next_data s"
    and "medicines_names (data_cells s ex) < next_list s"
    and "case medicines_key (new_cells s nd) of None \<Rightarrow> True | Some l \<Rightarrow> l < next_list s"
  shows "snd (merge_prescription_data_obj py s nd ex) = next_data s \<and>
    next_list s \<le> medicines_names (data_cells (fst (merge_prescription_data_obj py s nd ex))
                                               (snd (merge_prescription_data_obj py s nd ex))) \<and>
    (\<forall>p < next_data s. data_cells (fst (merge_prescription_data_obj py s nd ex)) p = data_cells s p) \<and>
    (\<forall>l < next_list s. list_cells (fst (merge_prescription_data_obj py s nd ex)) l = list_cells s l) \<and>
    new_cells (fst (merge_prescription_data_obj py s nd ex)) = new_cells s \<and>
    (\<forall>a < next_addr (dict_heap s).
        \<not> matched py (dict_heap s) (kept (dict_heap s) (medicines_names (read_data s ex)))
              (medicines_get (read_new s nd)) a \<longrightarrow>
        cells (dict_heap (fst (merge_prescription_data_obj py s nd ex))) a = cells (dict_heap s) a)"
proof -
  note eq = merge_prescription_data_obj_eq[OF assms(2-4), of py]
  show ?thesis
  proof (intro conjI allI impI)
    show "snd (merge_prescription_data_obj py s nd ex) = next_data s" by (simp add: eq)
    show "next_list s \<le> medicines_names (data_cells (fst (merge_prescription_data_obj py s nd ex))
                                               (snd (merge_prescription_data_obj py s nd ex)))"
      by (simp add: eq)
    show "data_cells (fst (merge_prescription_data_obj py s nd ex)) p = data_cells s p"
      if "p < next_data s" for p using that by (simp add: eq)
    show "list_cells (fst (merge_prescription_data_obj py s nd ex)) l = list_cells s l"
      if "l < next_list s" for l using that by (simp add: eq)
    show "new_cells (fst (merge_prescription_data_obj py s nd ex)) = new_cells s" by (simp add: eq)
    show "cells (dict_heap (fst (merge_prescription_data_obj py s nd ex))) a = cells (dict_heap s) a"
      if "a < next_addr (dict_heap s)"
        and "\<not> matched py (dict_heap s) (kept (dict_heap s) (medicines_names (read_data s ex)))
              (medicines_get (read_new s nd)) a" for a
      using unmatched_cells[OF assms(1) that] by (simp add: eq)
  qed
qed

text \<open>
  The theorem where the existing list names aspirin twice and aspirin arrives: the second
  existing entry is not the one the scan stops at and is left as it was, the two lists and
  the existing record are as before, and the result is a new record.
\<close>

theorem merge_assigns_only_matched_entries_witness:
  "snd (merge_prescription_data_obj ascii_str duplicate_store 0 0) = 1 \<and>
   data_cells (fst (merge_prescription_data_obj ascii_str duplicate_store 0 0)) 0 =
     data_cells duplicate_store 0 \<and>
   list_cells (fst (merge_prescription_data_obj ascii_str duplicate_store 0 0)) 0 = [0, 1] \<and>
   list_cells (fst (merge_prescription_data_obj ascii_str duplicate_store 0 0)) 1 = [2] \<and>
   new_cells (fst (merge_prescription_data_obj ascii_str duplicate_store 0 0)) =
     new_cells duplicate_store \<and>
   cells (dict_heap (fst (merge_prescription_data_obj ascii_str duplicate_store 0 0))) 1 =
     aspirin_lower"
proof -
  have a: "0 < next_data duplicate_store"
    and b: "medicines_names (data_cells duplicate_store 0) < next_list duplicate_store"
    and c: "case medicines_key (new_cells duplicate_store 0) of None \<Rightarrow> True
            | Some l \<Rightarrow> l < next_list duplicate_store"
    by (simp_all add: duplicate_store_def store_of_simps data_with_def)
  note th = merge_assigns_only_matched_entries[OF python_str_ascii a b c]
  have kept: "kept (heap_of [aspirin_upper, aspirin_lower, aspirin_upper]) [0, Suc 0] = [0, Suc 0]"
    by (simp add: kept_def cells_heap_of aspirin_upper_def aspirin_lower_def)
  have unmatched: "\<not> matched ascii_str (dict_heap duplicate_store)
      (kept (dict_heap duplicate_store) (medicines_names (read_data duplicate_store 0)))
      (medicines_get (read_new duplicate_store 0)) 1"
    by (simp add: duplicate_store_reads kept matched_def first_match_def norm_name_duplicate)
  have old: "1 < next_addr (dict_heap duplicate_store)"
    "cells (dict_heap duplicate_store) 1 = aspirin_lower"
    "list_cells duplicate_store 0 = [0, 1]" "list_cells duplicate_store 1 = [2]"
    "next_data duplicate_store = 1" "next_list duplicate_store = 2"
    by (simp_all add: duplicate_store_def store_of_simps heap_of_def)
  from th unmatched old show ?thesis by simp
qed

text \<open>
  Claim C4 as stated fails at scenario B: after the merge the existing entry, which the
  existing record still refers to through its list, carries the incoming side effect.
\<close>

theorem existing_entry_mutated_counterexample:
  "cells (dict_heap (fst (merge_prescription_data_obj ascii_str scenario_B_store 0 0))) 0 \<noteq>
   cells (dict_heap scenario_B_store) 0"
proof -
  have a: "0 < next_data scenario_B_store"
    and b: "medicines_names (data_cells scenario_B_store 0) < next_list scenario_B_store"
    and c: "case medicines_key (new_cells scenario_B_store 0) of None \<Rightarrow> True
            | Some l \<Rightarrow> l < next_list scenario_B_store"
    by (simp_all add: scenario_B_store_def store_of_simps data_with_def)
  have "cells (dict_heap (fst (merge_prescription_data_obj ascii_str scenario_B_store 0 0))) 0
          ''side_effects'' = Some ''drowsiness''"
    by (simp add: merge_prescription_data_obj_eq[OF a b c] scenario_B_store_reads
        merge_scenario_B update_items_def amoxicillin_incoming_def)
  moreover have "cells (dict_heap scenario_B_store) 0 ''side_effects'' = Some ''none''"
    by (simp add: scenario_B_store_reads scenario_B_heap_def cells_heap_of amoxicillin_existing_def)
  ultimately show ?thesis by auto
qed

text \<open>
  Claim C5. When the key of an incoming entry is mergeable and the first entry of the
  result list with that key stands at position \<open>i\<close>, one round of the loop leaves the list
  as it is, writes every field of the incoming entry that is neither \<open>"none"\<close> nor empty
  (the name among them) into the entry at \<open>i\<close>, leaves the value at \<open>i\<close> untouched for
  every incoming field that is \<open>"none"\<close>, and changes no other entry.
\<close>

theorem matched_entry_updated:
  assumes "mergeable (norm_name py h new_med)"
    and "i < length merged_medicines"
    and "norm_name py h (merged_medicines ! i) = norm_name py h new_med"
    and "\<forall>l < i. norm_name py h (merged_medicines ! l) \<noteq> norm_name py h new_med"
  shows "snd (merge_new_med py h merged_medicines new_med) = merged_medicines \<and>
    (\<forall>key v. cells h new_med key = Some v \<and> v \<noteq> ''none'' \<and> v \<noteq> '''' \<longrightarrow>
       cells (fst (merge_new_med py h merged_medicines new_med)) (merged_medicines ! i) key = Some v) \<and>
    (\<forall>key. cells h new_med key = Some ''none'' \<longrightarrow>
       cells (fst (merge_new_med py h merged_medicines new_med)) (merged_medicines ! i) key =
       cells h (merged_medicines ! i) key) \<and>
    (\<forall>a. a \<noteq> merged_medicines ! i \<longrightarrow>
       cells (fst (merge_new_med py h merged_medicines new_med)) a = cells h a)"
proof -
  have "find_existing_index py h merged_medicines (norm_name py h new_med) 0 = Some (0 + i)"
    using assms(2-4) by (rule find_existing_index_first)
  then have "merge_new_med py h merged_medicines new_med =
      (h\<lparr>cells := (cells h)(merged_medicines ! i :=
            update_items (cells h (merged_medicines ! i)) (cells h new_med))\<rparr>, merged_medicines)"
    using assms(1) by (simp add: merge_new_med_def norm_name_def mergeable_def Let_def)
  then show ?thesis by (simp add: update_items_def)
qed

text \<open>
  The theorem at scenario B: the name and the side effect are taken from the incoming
  entry, the quantity stays.
\<close>

theorem matched_entry_updated_witness:
  "snd (merge_new_med ascii_str scenario_B_heap [0] 1) = [0] \<and>
   cells (fst (merge_new_med ascii_str scenario_B_heap [0] 1)) 0 ''medicine_name'' = Some ''AMOXICILLIN'' \<and>
   cells (fst (merge_new_med ascii_str scenario_B_heap [0] 1)) 0 ''side_effects'' = Some ''drowsiness'' \<and>
   cells (fst (merge_new_med ascii_str scenario_B_heap [0] 1)) 0 ''qty'' = Some ''30 tabs'' \<and>
   cells (fst (merge_new_med ascii_str scenario_B_heap [0] 1)) 1 = amoxicillin_incoming"
proof -
  have a: "mergeable (norm_name ascii_str scenario_B_heap 1)"
    by (simp add: norm_name_scenario_B mergeable_def)
  have b: "0 < length [0::addr]" by simp
  have c: "norm_name ascii_str scenario_B_heap ([0] ! 0) = norm_name ascii_str scenario_B_heap 1"
    by (simp add: norm_name_scenario_B)
  have d: "\<forall>l < 0. norm_name ascii_str scenario_B_heap ([0] ! l) \<noteq> norm_name ascii_str scenario_B_heap 1"
    by simp
  note th = matched_entry_updated[OF a b c d]
  have new: "cells scenario_B_heap (Suc 0) = amoxicillin_incoming"
    and old: "cells scenario_B_heap 0 = amoxicillin_existing"
    by (simp_all add: scenario_B_heap_def cells_heap_of)
  have "cells scenario_B_heap 1 ''medicine_name'' = Some ''AMOXICILLIN''"
    "cells scenario_B_heap 1 ''side_effects'' = Some ''drowsiness''"
    "cells scenario_B_heap 1 ''qty'' = Some ''none''"
    "cells scenario_B_heap 0 ''qty'' = Some ''30 tabs''"
    by (simp_all add: new old amoxicillin_incoming_def amoxicillin_existing_def)
  with th new show ?thesis by simp
qed

text \<open>
  Claim C6. The merged list is the carried-over existing entries in their original order,
  followed by incoming entries in their incoming order (a subsequence of the incoming
  list); when both parts are empty it is the one freshly allocated placeholder.
\<close>

theorem merged_medicines_order:
  "\<exists>appended. subseq appended new_medicines \<and>
     subseq (kept h existing_medicines) existing_medicines \<and>
     snd (merge_medicines py h new_medicines existing_medicines) =
       (if kept h existing_medicines @ appended = [] then [next_addr h]
        else kept h existing_medicines @ appended)"
proof -
  obtain h1 ms where s: "merge_new_medicines py h (kept h existing_medicines) new_medicines = (h1, ms)"
    by (cases "merge_new_medicines py h (kept h existing_medicines) new_medicines")
  obtain app where app: "subseq app new_medicines" "ms = kept h existing_medicines @ app"
    using merge_new_medicines_appends[of new_medicines py h "kept h existing_medicines"] s by auto
  have n: "next_addr h1 = next_addr h"
    using next_addr_merge_new_medicines[of py h "kept h existing_medicines" new_medicines] s by simp
  show ?thesis
  proof (intro exI[of _ app] conjI)
    show "subseq app new_medicines" by (rule app)
    show "subseq (kept h existing_medicines) existing_medicines" by (simp add: kept_def)
    show "snd (merge_medicines py h new_medicines existing_medicines) =
       (if kept h existing_medicines @ app = [] then [next_addr h]
        else kept h existing_medicines @ app)"
      using s app(2) n by (simp add: merge_medicines_kept alloc_def)
  qed
qed

text \<open>
  Claim C7. The merged medicine list is never empty; when the two loops leave the result
  empty, the returned list is one entry with every field \<open>"none"\<close>; and merging two empty
  lists, or two lists holding one all-\<open>"none"\<close> entry each, returns exactly that.
\<close>

theorem merged_medicines_never_empty:
  "snd (merge_medicines py h new_medicines existing_medicines) \<noteq> [] \<and>
   (snd (merge_new_medicines py h (kept h existing_medicines) new_medicines) = [] \<longrightarrow>
      entries (merge_medicines py h new_medicines existing_medicines) = [Medicine_asdict]) \<and>
   entries (merge_medicines py h [] []) = [Medicine_asdict] \<and>
   (python_str py \<and> cells h s = Medicine_asdict \<and> cells h s' = Medicine_asdict \<longrightarrow>
      entries (merge_medicines py h [s] [s']) = [Medicine_asdict])"
proof (intro conjI impI)
  obtain h1 ms where s: "merge_new_medicines py h (kept h existing_medicines) new_medicines = (h1, ms)"
    by (cases "merge_new_medicines py h (kept h existing_medicines) new_medicines")
  then show "snd (merge_medicines py h new_medicines existing_medicines) \<noteq> []"
    by (cases "ms = []") (simp_all add: merge_medicines_kept alloc_def)
  show "entries (merge_medicines py h new_medicines existing_medicines) = [Medicine_asdict]"
    if "snd (merge_new_medicines py h (kept h existing_medicines) new_medicines) = []"
    using that s by (simp add: merge_medicines_kept alloc_def entries_def)
  show "entries (merge_medicines py h [] []) = [Medicine_asdict]"
    by (simp add: merge_medicines_def alloc_def entries_def)
  show "entries (merge_medicines py h [s] [s']) = [Medicine_asdict]"
    if "python_str py \<and> cells h s = Medicine_asdict \<and> cells h s' = Medicine_asdict"
  proof -
    from that have "kept h [s'] = []" by (simp add: kept_def Medicine_asdict_name)
    moreover from that have "merge_new_med py h [] s = (h, [])"
      by (intro merge_new_med_skip) (simp add: norm_name_placeholder mergeable_def)
    ultimately show ?thesis
      by (simp add: merge_medicines_kept alloc_def entries_def)
  qed
qed

text \<open>
  The theorem at a store holding one all-\<open>"none"\<close> entry that is both incoming and
  existing.
\<close>

theorem merged_medicines_never_empty_witness:
  "snd (merge_medicines ascii_str (heap_of [Medicine_asdict]) [0] [0]) = [1] \<and>
   entries (merge_medicines ascii_str (heap_of [Medicine_asdict]) [0] [0]) = [Medicine_asdict]"
proof -
  have a: "python_str ascii_str \<and> cells (heap_of [Medicine_asdict]) 0 = Medicine_asdict \<and>
           cells (heap_of [Medicine_asdict]) 0 = Medicine_asdict"
    by (simp add: cells_heap_of python_str_ascii)
  have "merge_new_med ascii_str (heap_of [Medicine_asdict]) [] 0 = (heap_of [Medicine_asdict], [])"
    by (rule merge_new_med_skip) (simp add: norm_name_placeholder[OF python_str_ascii] cells_heap_of mergeable_def)
  then have "snd (merge_medicines ascii_str (heap_of [Medicine_asdict]) [0] [0]) = [1]"
    by (simp add: merge_medicines_kept kept_def cells_heap_of Medicine_asdict_name alloc_def
        next_addr_heap_of)
  with merged_medicines_never_empty[of ascii_str "heap_of [Medicine_asdict]" "[0]" "[0]" 0 0] a
  show ?thesis by simp
qed

text \<open>
  Claim C8. An incoming entry whose lower-cased, stripped name is empty or \<open>"none"\<close> is
  skipped: the merge returns the same store and the same list as the merge of the incoming
  list without that entry. The functions are total, so no error is raised.
\<close>

theorem degenerate_entry_skipped:
  assumes "python_str py"
    and "norm_name py h e = '''' \<or> norm_name py h e = ''none''"
  shows "merge_medicines py h (xs @ e # ys) existing_medicines =
         merge_medicines py h (xs @ ys) existing_medicines"
proof -
  obtain h1 ms1 where s: "merge_new_medicines py h (kept h existing_medicines) xs = (h1, ms1)"
    by (cases "merge_new_medicines py h (kept h existing_medicines) xs")
  have "norm_name py h1 e = norm_name py h e"
    using norm_name_merge_new_medicines[OF assms(1), of h "kept h existing_medicines" xs e] s by simp
  with assms(2) have "\<not> mergeable (norm_name py h1 e)" by (auto simp: mergeable_def)
  then have "merge_new_med py h1 ms1 e = (h1, ms1)" by (rule merge_new_med_skip)
  then have "merge_new_medicines py h (kept h existing_medicines) (xs @ e # ys) =
             merge_new_medicines py h (kept h existing_medicines) (xs @ ys)"
    using s by (simp add: merge_new_medicines_append)
  then show ?thesis by (simp add: merge_medicines_kept)
qed

text \<open>
  The theorem with a placeholder in front of the incoming entry of scenario B.
\<close>

theorem degenerate_entry_skipped_witness:
  "merge_medicines ascii_str skip_heap [2, 1] [0] = merge_medicines ascii_str skip_heap [1] [0]"
proof -
  have "cells skip_heap 2 = Medicine_asdict"
    by (simp add: skip_heap_def cells_heap_of)
  then have "norm_name ascii_str skip_heap 2 = '''' \<or> norm_name ascii_str skip_heap 2 = ''none''"
    by (simp add: norm_name_placeholder[OF python_str_ascii])
  from degenerate_entry_skipped[OF python_str_ascii this, of "[]" "[1]" "[0]"] show ?thesis by simp
qed

text \<open>
  Claim C9, as amended. The record held at construction of the extractor and after
  \<open>reset_data\<close>, as \<open>get_current_data\<close> reports it, has every scalar field
  \<open>"none"\<close> and an empty medicine list.
\<close>

theorem fresh_record_value:
  "get_current_data h extractor_init = (map (\<lambda>field. (field, ''none'')) scalar_fields, []) \<and>
   get_current_data h (reset_data self) = (map (\<lambda>field. (field, ''none'')) scalar_fields, [])"
  by (simp add: get_current_data_def asdict_def extractor_init_def reset_data_def PrescriptionData_init_def
      getattr_def scalar_fields_def)

text \<open>
  Claim C9 as stated fails: the medicine list of the record after a reset is not the
  one-placeholder list.
\<close>

theorem fresh_record_counterexample:
  "snd (get_current_data (heap_of []) (reset_data extractor_init)) \<noteq> [Medicine_asdict]"
  by (simp add: get_current_data_def asdict_def extractor_init_def reset_data_def PrescriptionData_init_def)

text \<open>
  Claim C10. A scalar key absent from the incoming dict gives the same merge as that key
  set to \<open>"none"\<close>, and the merged field then is the existing value; an absent
  \<open>medicines_names\<close> key gives the same merge as an empty incoming list.
\<close>

theorem absent_keys_as_defaults:
  "(scalars nd field = None \<longrightarrow>
      merge_prescription_data py h (nd\<lparr>scalars := (scalars nd)(field \<mapsto> ''none'')\<rparr>) ex =
      merge_prescription_data py h nd ex) \<and>
   (scalars nd field = None \<and> field \<in> set scalar_fields \<longrightarrow>
      getattr (snd (merge_prescription_data py h nd ex)) field ''none'' = getattr ex field ''none'') \<and>
   (medicines_key nd = None \<longrightarrow>
      merge_prescription_data py h (nd\<lparr>medicines_key := Some []\<rparr>) ex =
      merge_prescription_data py h nd ex)"
proof (intro conjI impI)
  show "merge_prescription_data py h (nd\<lparr>scalars := (scalars nd)(field \<mapsto> ''none'')\<rparr>) ex =
      merge_prescription_data py h nd ex" if "scalars nd field = None"
    by (simp add: merge_field_absent[OF that] merge_prescription_data_def medicines_get_def)
  show "getattr (snd (merge_prescription_data py h nd ex)) field ''none'' = getattr ex field ''none''"
    if "scalars nd field = None \<and> field \<in> set scalar_fields"
  proof -
    from that have n: "dict_get (scalars nd) field ''none'' = ''none''" by (simp add: dict_get_def)
    from that have "field \<in> set scalar_fields" by simp
    from getattr_merged[OF this, of py h nd ex] n show ?thesis by (simp add: reconcile_none)
  qed
  show "merge_prescription_data py h (nd\<lparr>medicines_key := Some []\<rparr>) ex =
      merge_prescription_data py h nd ex" if "medicines_key nd = None"
    using that by (simp add: merge_prescription_data_def merge_field_medicines_key medicines_get_def)
qed

text \<open>
  The theorem at the empty dict merged into the record of scenario B.
\<close>

theorem absent_keys_as_defaults_witness:
  "merge_prescription_data ascii_str scenario_B_heap
      (empty_response\<lparr>scalars := (scalars empty_response)(''pharmacy_or_doctor_name'' \<mapsto> ''none'')\<rparr>)
      scenario_B_existing =
   merge_prescription_data ascii_str scenario_B_heap empty_response scenario_B_existing \<and>
   getattr (snd (merge_prescription_data ascii_str scenario_B_heap empty_response scenario_B_existing))
      ''pharmacy_or_doctor_name'' ''none'' = ''CVS'' \<and>
   merge_prescription_data ascii_str scenario_B_heap (empty_response\<lparr>medicines_key := Some []\<rparr>)
      scenario_B_existing =
   merge_prescription_data ascii_str scenario_B_heap empty_response scenario_B_existing"
proof -
  have a: "scalars empty_response ''pharmacy_or_doctor_name'' = None"
    and b: "''pharmacy_or_doctor_name'' \<in> set scalar_fields"
    and c: "medicines_key empty_response = None"
    by (simp_all add: empty_response_def scalar_fields_def)
  have "getattr scenario_B_existing ''pharmacy_or_doctor_name'' ''none'' = ''CVS''"
    by (simp add: getattr_def scenario_B_existing_def)
  with absent_keys_as_defaults[of empty_response "''pharmacy_or_doctor_name''" ascii_str scenario_B_heap
      scenario_B_existing] a b c
  show ?thesis by simp
qed

end
